theory Spec2Isabelle
  imports Complex_Main
begin

section \<open>Python values and exceptions\<close>

text \<open>
  The repository is a set of Python scripts around a SQL Server database: \<open>main.py\<close> runs
  deposits, withdrawals and transfers under a retry decorator, \<open>agent.py\<close>,
  \<open>ai_agent.py\<close> and \<open>monitor_errors.py\<close> poll the table \<open>dbo.ErrorLog\<close> and mail a
  report. The database, the SMTP server and the clock are the environment: what they answer
  is an argument of the model, what the scripts do with the answer is the model.

  A Python text is modelled as a list of code points below 256, one \<open>char\<close> each.
  Exceptions are values: \<open>Inl e\<close> is a raise of \<open>e\<close>, \<open>Inr v\<close> a normal return of \<open>v\<close>.
  \<open>PyodbcError args\<close> is any \<open>pyodbc.Error\<close> with the texts of its \<open>args\<close>;
  \<open>OtherError\<close> stands for an exception outside the \<open>pyodbc.Error\<close> hierarchy
  (\<open>RuntimeError\<close>, \<open>smtplib.SMTPException\<close>, \<open>OSError\<close>, ...).
\<close>

datatype exn = PyodbcError "string list" | ValueError | OtherError string

section \<open>main.py: recovering the SQL error number\<close>

text \<open>
  \<^verbatim>\<open>
  TRANSIENT_ERRORS = {1205, 1222, 4060, 40197, 40501, 49918, 49919, 49920}
  BUSINESS_ERRORS = {50001, 50002, 50003, 2601}  # expected business errors
  \<close>
\<close>

definition TRANSIENT_ERRORS :: "int set" where
  "TRANSIENT_ERRORS = {1205, 1222, 4060, 40197, 40501, 49918, 49919, 49920}"

definition BUSINESS_ERRORS :: "int set" where
  "BUSINESS_ERRORS = {50001, 50002, 50003, 2601}"

text \<open>\<open>x in S\<close> for an \<open>int | None\<close> value \<open>x\<close> and a set of integers.\<close>

definition py_in :: "int option \<Rightarrow> int set \<Rightarrow> bool" where
  "py_in x S = (case x of None \<Rightarrow> False | Some n \<Rightarrow> n \<in> S)"

text \<open>
  \<open>str.isspace\<close>, and the characters for which \<open>str.isdigit\<close> holds, on code points below
  256: the white space is TAB..CR, FS..US, SPACE, NEL and NBSP; the digits are \<open>0\<close>..\<open>9\<close> and
  the superscripts two, three and one (178, 179, 185). \<open>int()\<close> reads the decimal digits
  \<open>0\<close>..\<open>9\<close> only and raises \<open>ValueError\<close> on a superscript.
\<close>

definition isspace :: "char \<Rightarrow> bool" where
  "isspace c = (let n = (of_char c :: nat) in
      (9 \<le> n \<and> n \<le> 13) \<or> (28 \<le> n \<and> n \<le> 32) \<or> n = 133 \<or> n = 160)"

definition is_decimal_chr :: "char \<Rightarrow> bool" where
  "is_decimal_chr c = (let n = (of_char c :: nat) in 48 \<le> n \<and> n \<le> 57)"

definition is_digit_chr :: "char \<Rightarrow> bool" where
  "is_digit_chr c = (let n = (of_char c :: nat) in
      (48 \<le> n \<and> n \<le> 57) \<or> n = 178 \<or> n = 179 \<or> n = 185)"

definition isdigit :: "string \<Rightarrow> bool" where
  "isdigit s = (s \<noteq> [] \<and> list_all is_digit_chr s)"

definition digit_val :: "char \<Rightarrow> int" where
  "digit_val c = int (of_char c) - 48"

definition int_of_str :: "string \<Rightarrow> exn + int" where
  "int_of_str s =
     (if s \<noteq> [] \<and> list_all is_decimal_chr s
      then Inr (foldl (\<lambda>a c. 10 * a + digit_val c) 0 s)
      else Inl ValueError)"

text \<open>\<open>str.split()\<close> without a separator: the maximal runs of non-space characters.\<close>

fun split_from :: "string \<Rightarrow> string \<Rightarrow> string list" where
  "split_from tok [] = (if tok = [] then [] else [tok])"
| "split_from tok (c # cs) =
     (if isspace c then (if tok = [] then split_from [] cs else tok # split_from [] cs)
      else split_from (tok @ [c]) cs)"

definition split :: "string \<Rightarrow> string list" where
  "split s = split_from [] s"

text \<open>
  \<^verbatim>\<open>
  def _extract_errnum(ex: pyodbc.Error) -> int | None:
      try:
          if len(ex.args) > 1:
              text = str(ex.args[1])
          else:
              text = str(ex)
          for tok in text.replace('(', ' ').replace(')', ' ').replace('#', ' ')
                         .replace('[', ' ').replace(']', ' ').split():
              if tok.isdigit():
                  return int(tok)
      except Exception:
          pass
      return None
  \<close>
  \<open>str(ex)\<close> of an exception with no argument is the empty text, with one argument the
  text of that argument. \<open>error_text\<close> is the text that is scanned, \<open>tokens\<close> the list
  the loop runs over, \<open>extract_errnum_try\<close> the body of the \<open>try\<close>, where \<open>int(tok)\<close>
  may raise, and \<open>extract_errnum\<close> adds the handler.
\<close>

definition str_exn :: "string list \<Rightarrow> string" where
  "str_exn args = (case args of [] \<Rightarrow> [] | a # _ \<Rightarrow> a)"

definition replace_brackets :: "string \<Rightarrow> string" where
  "replace_brackets s =
     map (\<lambda>c. if c \<in> {CHR ''('', CHR '')'', CHR ''#'', CHR ''['', CHR '']''} then CHR '' '' else c) s"

fun first_digit_token :: "string list \<Rightarrow> exn + int option" where
  "first_digit_token [] = Inr None"
| "first_digit_token (tok # toks) =
     (if isdigit tok
      then (case int_of_str tok of Inl e \<Rightarrow> Inl e | Inr n \<Rightarrow> Inr (Some n))
      else first_digit_token toks)"

definition error_text :: "string list \<Rightarrow> string" where
  "error_text args = (if length args > 1 then args ! 1 else str_exn args)"

definition tokens :: "string list \<Rightarrow> string list" where
  "tokens args = split (replace_brackets (error_text args))"

definition extract_errnum_try :: "string list \<Rightarrow> exn + int option" where
  "extract_errnum_try args = first_digit_token (tokens args)"

definition extract_errnum :: "string list \<Rightarrow> int option" where
  "extract_errnum args =
     (case extract_errnum_try args of Inl _ \<Rightarrow> None | Inr r \<Rightarrow> r)"

text \<open>
  \<^verbatim>\<open>
  def is_business_error(ex: pyodbc.Error) -> bool:
      return _extract_errnum(ex) in BUSINESS_ERRORS
  \<close>
\<close>

definition is_business_error :: "string list \<Rightarrow> bool" where
  "is_business_error args = py_in (extract_errnum args) BUSINESS_ERRORS"

section \<open>main.py: the retry decorator\<close>

text \<open>
  \<^verbatim>\<open>
  def with_retry(max_attempts: int = 3, base_delay: float = 0.8):
      def deco(fn):
          def wrapper(*args, **kwargs):
              attempt = 1
              while True:
                  try:
                      return fn(*args, **kwargs)
                  except pyodbc.Error as ex:
                      errnum = _extract_errnum(ex)
                      if errnum in TRANSIENT_ERRORS and attempt < max_attempts:
                          delay = base_delay * attempt
                          print(...)
                          time.sleep(delay)
                          attempt += 1
                          continue
                      raise
  \<close>
  The wrapped function talks to the database, so what one call of it does depends on the
  call: \<open>fn k\<close> is the result of the call made as attempt \<open>k\<close>, with the database
  actions of that call. A run of the wrapper yields the result it returns or raises, the
  number of calls of \<open>fn\<close> it made, the delays it slept in order, and the database actions
  of all calls. Durations are exact rationals (\<open>0.8\<close> is \<open>4/5\<close>); console output is not
  part of the model.
\<close>

datatype op_kind = Deposit | Withdraw | Transfer

datatype db_event = Connect | Execute op_kind | Commit | Rollback

record 'a run =
  result :: "exn + 'a"
  calls :: nat
  sleeps :: "rat list"
  events :: "db_event list"

function retry_loop ::
  "int \<Rightarrow> rat \<Rightarrow> (int \<Rightarrow> (exn + 'a) \<times> db_event list) \<Rightarrow> int \<Rightarrow> 'a run" where
  "retry_loop max_attempts base_delay fn attempt =
     (case fn attempt of
        (Inr v, evs) \<Rightarrow> \<lparr>result = Inr v, calls = 1, sleeps = [], events = evs\<rparr>
      | (Inl ex, evs) \<Rightarrow>
          (case ex of
             PyodbcError args \<Rightarrow>
               (let errnum = extract_errnum args in
                if py_in errnum TRANSIENT_ERRORS \<and> attempt < max_attempts
                then (let delay = base_delay * of_int attempt;
                          r = retry_loop max_attempts base_delay fn (attempt + 1)
                      in r\<lparr>calls := Suc (calls r), sleeps := delay # sleeps r,
                           events := evs @ events r\<rparr>)
                else \<lparr>result = Inl ex, calls = 1, sleeps = [], events = evs\<rparr>)
           | _ \<Rightarrow> \<lparr>result = Inl ex, calls = 1, sleeps = [], events = evs\<rparr>))"
  by pat_completeness auto
termination
  by (relation "measure (\<lambda>(m, b, f, a). nat (m - a))") auto

declare retry_loop.simps [simp del]

definition with_retry ::
  "int \<Rightarrow> rat \<Rightarrow> (int \<Rightarrow> (exn + 'a) \<times> db_event list) \<Rightarrow> 'a run" where
  "with_retry max_attempts base_delay fn = retry_loop max_attempts base_delay fn 1"

text \<open>
  The time slept between attempt \<open>k - 1\<close> and attempt \<open>k\<close> of a run: nothing before the
  first attempt, and the \<open>(k - 1)\<close>-th sleep before attempt \<open>k\<close>.
\<close>

definition delay_before :: "'a run \<Rightarrow> nat \<Rightarrow> rat" where
  "delay_before r k = (if 2 \<le> k \<and> k \<le> calls r then sleeps r ! (k - 2) else 0)"

definition default_max_attempts :: int where
  "default_max_attempts = 3"

definition default_base_delay :: rat where
  "default_base_delay = 4 / 5"

section \<open>main.py: deposit, withdraw, transfer\<close>

text \<open>
  \<^verbatim>\<open>
  @with_retry()
  def transfer(from_id, to_id, amount, ref=None):
      if ref is None:
          ref = gen_ref("tx")
      with get_conn() as conn:
          cur = conn.cursor()
          try:
              cur.execute("EXEC dbo.usp_TransferFunds ?, ?, ?, ?", (from_id, to_id, amount, ref))
              conn.commit()
              print(...)
          except pyodbc.Error as ex:
              conn.rollback()
              if is_business_error(ex):
                  print(...)
                  return False
              print(...)
              raise
  \<close>
  \<open>deposit\<close> and \<open>withdraw\<close> are the same text with \<open>usp_Deposit\<close> and \<open>usp_Withdraw\<close>.
  What the database answers during one call is a \<open>db_world\<close>: for each of
  \<open>get_conn()\<close>, \<open>cur.execute\<close>, \<open>conn.commit()\<close> and \<open>conn.rollback()\<close> the exception it
  raises, if any. The function returns \<open>None\<close> after a commit and \<open>False\<close> on a business
  error. What the connection does when the \<open>with\<close> block is left belongs to the driver and
  is not modelled.
\<close>

record db_world =
  connect_exn :: "exn option"
  execute_exn :: "exn option"
  commit_exn :: "exn option"
  rollback_exn :: "exn option"

datatype py_return = ReturnNone | ReturnFalse

definition on_error ::
  "db_world \<Rightarrow> exn \<Rightarrow> db_event list \<Rightarrow> (exn + py_return) \<times> db_event list" where
  "on_error w ex evs =
     (case ex of
        PyodbcError args \<Rightarrow>
          (case rollback_exn w of
             Some e \<Rightarrow> (Inl e, evs @ [Rollback])
           | None \<Rightarrow>
               if is_business_error args then (Inr ReturnFalse, evs @ [Rollback])
               else (Inl ex, evs @ [Rollback]))
      | _ \<Rightarrow> (Inl ex, evs))"

definition op_body :: "op_kind \<Rightarrow> db_world \<Rightarrow> (exn + py_return) \<times> db_event list" where
  "op_body kind w =
     (case connect_exn w of
        Some e \<Rightarrow> (Inl e, [Connect])
      | None \<Rightarrow>
          (case execute_exn w of
             Some e \<Rightarrow> on_error w e [Connect, Execute kind]
           | None \<Rightarrow>
               (case commit_exn w of
                  Some e \<Rightarrow> on_error w e [Connect, Execute kind, Commit]
                | None \<Rightarrow> (Inr ReturnNone, [Connect, Execute kind, Commit]))))"

definition deposit :: "(int \<Rightarrow> db_world) \<Rightarrow> py_return run" where
  "deposit world =
     with_retry default_max_attempts default_base_delay (\<lambda>k. op_body Deposit (world k))"

definition withdraw :: "(int \<Rightarrow> db_world) \<Rightarrow> py_return run" where
  "withdraw world =
     with_retry default_max_attempts default_base_delay (\<lambda>k. op_body Withdraw (world k))"

definition transfer :: "(int \<Rightarrow> db_world) \<Rightarrow> py_return run" where
  "transfer world =
     with_retry default_max_attempts default_base_delay (\<lambda>k. op_body Transfer (world k))"

text \<open>The three operations, by kind.\<close>

definition operation :: "op_kind \<Rightarrow> (int \<Rightarrow> db_world) \<Rightarrow> py_return run" where
  "operation kind world =
     (case kind of Deposit \<Rightarrow> deposit world | Withdraw \<Rightarrow> withdraw world
      | Transfer \<Rightarrow> transfer world)"

section \<open>agent.py: rows of the error log\<close>

text \<open>
  A value the database driver hands over is an integer, a text or \<open>None\<close> (SQL NULL). A
  row of \<open>dbo.ErrorLog\<close> has the columns the scripts select: \<open>ErrorID, ProcName,
  ErrorNumber, ErrorMessage, OccurredAt\<close>; \<open>ErrorID\<close> is the integer key. A health
  finding is a tuple of values of any length.
\<close>

datatype py_value = PyInt int | PyStr string | PyNone

record err_row =
  ErrorID :: int
  ProcName :: py_value
  ErrorNumber :: py_value
  ErrorMessage :: py_value
  OccurredAt :: py_value

type_synonym finding = "py_value list"

text \<open>\<open>str(n)\<close> of an integer, \<open>str(v)\<close> and the truth value of a value.\<close>

definition digit_chr :: "nat \<Rightarrow> char" where
  "digit_chr d = char_of (48 + d)"

fun str_nat :: "nat \<Rightarrow> string" where
  "str_nat n = (if n < 10 then [digit_chr n] else str_nat (n div 10) @ [digit_chr (n mod 10)])"

definition str_int :: "int \<Rightarrow> string" where
  "str_int i = (if i < 0 then CHR ''-'' # str_nat (nat (- i)) else str_nat (nat i))"

definition str_value :: "py_value \<Rightarrow> string" where
  "str_value v = (case v of PyInt n \<Rightarrow> str_int n | PyStr s \<Rightarrow> s | PyNone \<Rightarrow> ''None'')"

definition truthy :: "py_value \<Rightarrow> bool" where
  "truthy v = (case v of PyInt n \<Rightarrow> n \<noteq> 0 | PyStr s \<Rightarrow> s \<noteq> [] | PyNone \<Rightarrow> False)"

section \<open>agent.py: the rule-based classifier\<close>

text \<open>
  \<^verbatim>\<open>
  def classify_and_plan(err_row) -> Tuple[str, str]:
      _, proc, num, msg, when = err_row
      num = int(num) if isinstance(num, (int,)) or (str(num).isdigit()) else None
      proc = proc or "unknown"
      if num in (2601, 2627):
          return ("P2", "Duplicate reference detected. ...")
      if num == 50003:
          return ("P3", "Insufficient funds. ...")
      if num in (1205, 1222):  # deadlock / lock timeout
          return ("P2", "Transient concurrency issue. ...")
      # default
      return ("P2", f"Investigate in SSMS. Procedure={proc}, Message={msg}")
  \<close>
  \<open>code_number\<close> is the second line. \<open>int(num)\<close> of an integer is that integer. Of the
  other values only a text can pass \<open>str(num).isdigit()\<close>, and \<open>int\<close> of such a text is
  \<open>int_of_str\<close>, which raises \<open>ValueError\<close> when a superscript digit is in it.
\<close>

definition code_number :: "py_value \<Rightarrow> exn + int option" where
  "code_number num =
     (case num of
        PyInt n \<Rightarrow> Inr (Some n)
      | _ \<Rightarrow>
          if isdigit (str_value num)
          then (case int_of_str (str_value num) of Inl e \<Rightarrow> Inl e | Inr n \<Rightarrow> Inr (Some n))
          else Inr None)"

definition duplicate_plan :: string where
  "duplicate_plan =
     ''Duplicate reference detected. Action: verify the ref, keep the earliest TransactionID, '' @
     ''void/cancel the duplicates. Suggested SQL:\<newline>'' @
     ''  ;WITH c AS (\<newline>'' @
     ''    SELECT TransactionID, ROW_NUMBER() OVER (PARTITION BY Ref ORDER BY TransactionID) rn\<newline>'' @
     ''    FROM dbo.Transactions WHERE Ref = @Ref\<newline>'' @
     ''  )\<newline>'' @
     ''  DELETE T FROM dbo.Transactions T JOIN c ON c.TransactionID=T.TransactionID WHERE c.rn > 1;\<newline>''"

definition insufficient_funds_plan :: string where
  "insufficient_funds_plan =
     ''Insufficient funds. Action: deposit to the source account, reduce transfer amount, or retry later.''"

definition transient_plan :: string where
  "transient_plan =
     ''Transient concurrency issue. Action: retry with backoff. Our Python client already retries (A2).''"

definition default_plan :: "py_value \<Rightarrow> py_value \<Rightarrow> string" where
  "default_plan proc msg =
     ''Investigate in SSMS. Procedure='' @ str_value proc @ '', Message='' @ str_value msg"

definition classify_and_plan :: "err_row \<Rightarrow> exn + (string \<times> string)" where
  "classify_and_plan err_row =
     (case code_number (ErrorNumber err_row) of
        Inl e \<Rightarrow> Inl e
      | Inr num \<Rightarrow>
          (let proc = (if truthy (ProcName err_row) then ProcName err_row else PyStr ''unknown'')
           in if py_in num {2601, 2627} then Inr (''P2'', duplicate_plan)
              else if num = Some 50003 then Inr (''P3'', insufficient_funds_plan)
              else if py_in num {1205, 1222} then Inr (''P2'', transient_plan)
              else Inr (''P2'', default_plan proc (ErrorMessage err_row))))"

section \<open>agent.py: the HTML report\<close>

text \<open>
  \<^verbatim>\<open>
  def html_report(new_errors, health_issues) -> Optional[str]:
      if not new_errors and not health_issues:
          return None
      ...
      out = [f"<!doctype html><html><head>{style}</head><body>"]
      out.append(f"<div class='card'><div class='h'>FinTx Agent Report ...{now}...")
      if new_errors:
          ... one table row per error, with classify_and_plan(e) ...
      if health_issues:
          ... one table row per finding ...
      out.append("<div class='footer'>...</div></div></body></html>")
      return "".join(out)
  \<close>
  The clock reading \<open>now\<close> is an argument.
\<close>

definition style :: string where
  "style =
     ''\<newline>'' @
     ''    <style>\<newline>'' @
     ''      body { font-family: Segoe UI, Arial, sans-serif; color:#0f172a; }\<newline>'' @
     ''      .card { border:1px solid #e2e8f0; border-radius:10px; padding:16px; margin-bottom:16px; }\<newline>'' @
     ''      .h { font-size:16px; font-weight:600; margin:0 0 10px 0;}\<newline>'' @
     ''      table { border-collapse: collapse; width:100%; }\<newline>'' @
     ''      th, td { border-bottom:1px solid #e2e8f0; padding:8px; text-align:left; font-size:13px; }\<newline>'' @
     ''      th { background:#f8fafc; }\<newline>'' @
     ''      .pill { padding:2px 8px; border-radius:999px; color:white; font-size:11px; }\<newline>'' @
     ''      .P1 { background:#dc2626; } .P2 { background:#d97706; } .P3 { background:#059669; } .INFO { background:#64748b; }\<newline>'' @
     ''      .mono { font-family: Consolas, monospace; }\<newline>'' @
     ''      .footer { color:#64748b; font-size:12px; margin-top:8px; }\<newline>'' @
     ''    </style>\<newline>'' @
     ''    ''"

definition error_tr :: "err_row \<Rightarrow> exn + string" where
  "error_tr e =
     (case classify_and_plan e of
        Inl x \<Rightarrow> Inl x
      | Inr (sev, plan) \<Rightarrow>
          Inr (''<tr><td>'' @ str_int (ErrorID e) @ ''</td><td class='mono'>'' @
               str_value (OccurredAt e) @ ''</td><td>'' @ str_value (ProcName e) @ ''</td>'' @
               ''<td><span class='pill '' @ sev @ '''>'' @ sev @
               ''</span> <span class='mono'>'' @ str_value (ErrorNumber e) @ ''</span></td>'' @
               ''<td><pre class='mono' style='white-space:pre-wrap'>'' @ plan @
               ''</pre></td></tr>''))"

fun error_trs :: "err_row list \<Rightarrow> exn + string list" where
  "error_trs [] = Inr []"
| "error_trs (e # es) =
     (case error_tr e of
        Inl x \<Rightarrow> Inl x
      | Inr t \<Rightarrow> (case error_trs es of Inl x \<Rightarrow> Inl x | Inr ts \<Rightarrow> Inr (t # ts)))"

definition finding_tr :: "finding \<Rightarrow> string" where
  "finding_tr it =
     ''<tr>'' @ concat (map (\<lambda>x. ''<td class='mono'>'' @ str_value x @ ''</td>'') it) @ ''</tr>''"

definition html_report :: "string \<Rightarrow> err_row list \<Rightarrow> finding list \<Rightarrow> exn + string option" where
  "html_report now new_errors health_issues =
     (if new_errors = [] \<and> health_issues = [] then Inr None
      else
        (case error_trs new_errors of
           Inl x \<Rightarrow> Inl x
         | Inr trs \<Rightarrow>
             (let out0 = [''<!doctype html><html><head>'' @ style @ ''</head><body>'',
                          ''<div class='card'><div class='h'>FinTx Agent Report <span class='mono'>'' @
                            now @ ''</span></div>''];
                  out1 = (if new_errors \<noteq> []
                          then [''<div class='h'>New errors</div>'',
                                ''<table><tr><th>ID</th><th>When (UTC)</th><th>Proc</th><th>Err#</th><th>Plan</th></tr>'']
                               @ trs @ [''</table>'']
                          else []);
                  out2 = (if health_issues \<noteq> []
                          then [''<div class='h' style='margin-top:14px'>Health findings</div>'',
                                ''<table><tr><th>Check</th><th>Key</th><th>Value</th></tr>'']
                               @ map finding_tr health_issues @ [''</table>'']
                          else []);
                  out3 = [''<div class='footer'>This message was generated by FinTx Agent.</div></div></body></html>'']
              in Inr (Some (concat (out0 @ out1 @ out2 @ out3))))))"

section \<open>The pollers: state, data access and mail\<close>

text \<open>
  \<^verbatim>\<open>
  def get_state(key: str, default: str = "0") -> str:
      row = con.execute("SELECT v FROM s WHERE k=?", (key,)).fetchone()
      return row[0] if row else default

  def set_state(key: str, value: str) -> None:
      con.execute("INSERT INTO s(k,v) VALUES(?,?) ON CONFLICT(k) DO UPDATE SET v=excluded.v", ...)
  \<close>
  The state table \<open>s\<close> is a map from keys to values. The scripts write \<open>str(id)\<close> and read
  the text back with \<open>int()\<close>; the model keeps the integer. \<open>ai_agent.py\<close>
  (\<open>state_get_last_id\<close>, \<open>state_set_last_id\<close>) and \<open>monitor_errors.py\<close> (\<open>get_last_id\<close>,
  \<open>set_last_id\<close>) have the same two functions with the key \<open>last_error_id\<close> and the
  default \<open>0\<close> built in.
\<close>

type_synonym store = "string \<rightharpoonup> int"

definition get_state :: "store \<Rightarrow> string \<Rightarrow> int \<Rightarrow> int" where
  "get_state st key dflt = (case st key of None \<Rightarrow> dflt | Some v \<Rightarrow> v)"

definition set_state :: "store \<Rightarrow> string \<Rightarrow> int \<Rightarrow> store" where
  "set_state st key v = st(key \<mapsto> v)"

definition state_get_last_id :: "store \<Rightarrow> int" where
  "state_get_last_id st = (case st ''last_error_id'' of None \<Rightarrow> 0 | Some v \<Rightarrow> v)"

definition state_set_last_id :: "store \<Rightarrow> int \<Rightarrow> store" where
  "state_set_last_id st v = st(''last_error_id'' \<mapsto> v)"

definition get_last_id :: "store \<Rightarrow> int" where
  "get_last_id st = (case st ''last_error_id'' of None \<Rightarrow> 0 | Some v \<Rightarrow> v)"

definition set_last_id :: "store \<Rightarrow> int \<Rightarrow> store" where
  "set_last_id st v = st(''last_error_id'' \<mapsto> v)"

text \<open>
  What the outside world answers during one cycle: the rows of \<open>dbo.ErrorLog\<close> at the time
  of the query, the result sets of \<open>usp_HealthCheck\<close> (\<open>None\<close> for a statement without a
  result set, where \<open>cur.description\<close> is empty), the exception either query raises, if any,
  the SMTP settings read from the process environment (an unset text is empty), the
  exception the SMTP session raises, if any, and the clock.
\<close>

record smtp_config =
  SMTP_HOST :: string
  SMTP_PORT :: int
  SMTP_USER :: string
  SMTP_PASS :: string
  SMTP_TO :: "string list"

record cycle_env =
  error_log :: "err_row list"
  fetch_exn :: "exn option"
  health_sets :: "finding list option list"
  health_exn :: "exn option"
  smtp :: smtp_config
  smtp_exn :: "exn option"
  utc_now :: string

text \<open>
  \<^verbatim>\<open>
  def fetch_new_errors(since_id: int):
      cur.execute("""SELECT ErrorID, ProcName, ErrorNumber, ErrorMessage, OccurredAt
                     FROM dbo.ErrorLog WHERE ErrorID > ? ORDER BY ErrorID""", since_id)
      return cur.fetchall()

  def run_health_check() -> List[Tuple]:
      issues = []
      cur.execute("EXEC dbo.usp_HealthCheck")
      while True:
          if cur.description:
              rows = cur.fetchall()
              for r in rows:
                  issues.append(tuple(r))
          if not cur.nextset():
              break
      return issues
  \<close>
  The three scripts have the same two functions.
\<close>

definition fetch_new_errors :: "cycle_env \<Rightarrow> int \<Rightarrow> exn + err_row list" where
  "fetch_new_errors env since_id =
     (case fetch_exn env of
        Some e \<Rightarrow> Inl e
      | None \<Rightarrow> Inr (sort_key ErrorID (filter (\<lambda>r. ErrorID r > since_id) (error_log env))))"

definition run_health_check :: "cycle_env \<Rightarrow> exn + finding list" where
  "run_health_check env =
     (case health_exn env of
        Some e \<Rightarrow> Inl e
      | None \<Rightarrow> Inr (concat (map (\<lambda>s. case s of None \<Rightarrow> [] | Some rows \<Rightarrow> rows) (health_sets env))))"

text \<open>
  \<^verbatim>\<open>
  def send_email(subject: str, html_body: str) -> None:       # agent.py
      if not (SMTP_HOST and SMTP_PORT and SMTP_USER and SMTP_PASS and SMTP_TO):
          logging.warning("SMTP not fully configured; skipping email")
          return
      ... build the message, open the SMTP session, starttls, login, sendmail ...

  def send_email(subject: str, html_body: str):               # ai_agent.py
      if not SMTP_HOST or not SMTP_USER or not SMTP_PASS or not SMTP_TO:
          print("Email not sent: SMTP env not fully configured.")
          return
      ...

  def send_email(subject, text):                              # monitor_errors.py
      if not (SMTP_HOST and SMTP_USER and SMTP_PASS and SMTP_TO):
          print("Email not configured; set SMTP_* in .env"); return
      ...
  \<close>
  A call returns normally after the session (\<open>Delivered\<close>) or after the warning
  (\<open>Skipped\<close>), or raises what the session raises. \<open>NotCalled\<close> and \<open>SendRaised\<close> are the
  other two things a cycle can say about its mail.
\<close>

datatype send_status = NotCalled | Skipped | Delivered | SendRaised

definition agent_smtp_configured :: "smtp_config \<Rightarrow> bool" where
  "agent_smtp_configured c =
     (SMTP_HOST c \<noteq> [] \<and> SMTP_PORT c \<noteq> 0 \<and> SMTP_USER c \<noteq> [] \<and> SMTP_PASS c \<noteq> [] \<and> SMTP_TO c \<noteq> [])"

definition smtp_configured :: "smtp_config \<Rightarrow> bool" where
  "smtp_configured c =
     (\<not> (SMTP_HOST c = [] \<or> SMTP_USER c = [] \<or> SMTP_PASS c = [] \<or> SMTP_TO c = []))"

definition agent_send_email :: "cycle_env \<Rightarrow> string \<Rightarrow> string \<Rightarrow> exn + send_status" where
  "agent_send_email env subject html_body =
     (if \<not> agent_smtp_configured (smtp env) then Inr Skipped
      else (case smtp_exn env of Some e \<Rightarrow> Inl e | None \<Rightarrow> Inr Delivered))"

definition send_email :: "cycle_env \<Rightarrow> string \<Rightarrow> string \<Rightarrow> exn + send_status" where
  "send_email env subject body =
     (if \<not> smtp_configured (smtp env) then Inr Skipped
      else (case smtp_exn env of Some e \<Rightarrow> Inl e | None \<Rightarrow> Inr Delivered))"

section \<open>The poll cycle of each script\<close>

text \<open>
  A cycle yields the state table it leaves, the rows it fetched, what happened to its
  mail, and the exception that ended it, if any.
\<close>

record cycle_result =
  store_after :: store
  fetched :: "err_row list"
  mail :: send_status
  raised :: "exn option"

text \<open>
  \<^verbatim>\<open>
  def main():                                                  # agent.py
      last_id = int(get_state("last_error_id", "0"))
      rows = fetch_new_errors(last_id)
      issues = run_health_check()
      html = html_report(rows, issues)
      if html:
          subject = f"[FinTx] {len(rows)} new error(s), health {'OK' if not issues else 'has findings'}"
          send_email(subject, html)
      if rows:
          set_state("last_error_id", str(rows[-1][0]))
  \<close>
\<close>

definition agent_subject :: "err_row list \<Rightarrow> finding list \<Rightarrow> string" where
  "agent_subject rows issues =
     ''[FinTx] '' @ str_int (int (length rows)) @ '' new error(s), health '' @
     (if issues = [] then ''OK'' else ''has findings'')"

definition agent_main :: "cycle_env \<Rightarrow> store \<Rightarrow> cycle_result" where
  "agent_main env st =
     (let last_id = get_state st ''last_error_id'' 0 in
      case fetch_new_errors env last_id of
        Inl e \<Rightarrow> \<lparr>store_after = st, fetched = [], mail = NotCalled, raised = Some e\<rparr>
      | Inr rows \<Rightarrow>
          (case run_health_check env of
             Inl e \<Rightarrow> \<lparr>store_after = st, fetched = rows, mail = NotCalled, raised = Some e\<rparr>
           | Inr issues \<Rightarrow>
               (case html_report (utc_now env) rows issues of
                  Inl e \<Rightarrow> \<lparr>store_after = st, fetched = rows, mail = NotCalled, raised = Some e\<rparr>
                | Inr html \<Rightarrow>
                    (case (if html \<noteq> None \<and> html \<noteq> Some []
                           then agent_send_email env (agent_subject rows issues) (the html)
                           else Inr NotCalled) of
                       Inl e \<Rightarrow>
                         \<lparr>store_after = st, fetched = rows, mail = SendRaised, raised = Some e\<rparr>
                     | Inr sent \<Rightarrow>
                         \<lparr>store_after =
                            (if rows \<noteq> []
                             then set_state st ''last_error_id'' (ErrorID (last rows))
                             else st),
                          fetched = rows, mail = sent, raised = None\<rparr>))))"

text \<open>
  \<^verbatim>\<open>
  def run_once(send_when_no_changes=False):                    # ai_agent.py
      state_init()
      last = state_get_last_id()
      err_rows = fetch_new_errors(last)
      health_rows = run_health_check()
      new_last = last
      if err_rows:
          new_last = max(r.ErrorID for r in err_rows)
      if not err_rows and not health_rows and not send_when_no_changes:
          if new_last != last:
              state_set_last_id(new_last)
          return
      ... prompt, summary (AI or fallback), subject ...
      html = render_email_html(summary, err_rows, health_rows)
      send_email(subject, html)
      if new_last != last:
          state_set_last_id(new_last)
  \<close>
  The summary and the HTML of this script are texts that decide nothing in the cycle; the
  model passes the subject and leaves the body empty.
\<close>

definition ai_subject :: "err_row list \<Rightarrow> finding list \<Rightarrow> string" where
  "ai_subject err_rows health_rows =
     ''[FinTxOps] Report - '' @ str_int (int (length err_rows)) @ '' errors; health '' @
     (if health_rows = [] then ''OK'' else ''issues'') @ ''.''"

definition run_once :: "bool \<Rightarrow> cycle_env \<Rightarrow> store \<Rightarrow> cycle_result" where
  "run_once send_when_no_changes env st =
     (let last = state_get_last_id st in
      case fetch_new_errors env last of
        Inl e \<Rightarrow> \<lparr>store_after = st, fetched = [], mail = NotCalled, raised = Some e\<rparr>
      | Inr err_rows \<Rightarrow>
          (case run_health_check env of
             Inl e \<Rightarrow> \<lparr>store_after = st, fetched = err_rows, mail = NotCalled, raised = Some e\<rparr>
           | Inr health_rows \<Rightarrow>
               (let new_last = (if err_rows \<noteq> [] then Max (ErrorID ` set err_rows) else last) in
                if err_rows = [] \<and> health_rows = [] \<and> \<not> send_when_no_changes
                then \<lparr>store_after = (if new_last \<noteq> last then state_set_last_id st new_last else st),
                      fetched = err_rows, mail = NotCalled, raised = None\<rparr>
                else
                  (case send_email env (ai_subject err_rows health_rows) [] of
                     Inl e \<Rightarrow>
                       \<lparr>store_after = st, fetched = err_rows, mail = SendRaised, raised = Some e\<rparr>
                   | Inr sent \<Rightarrow>
                       \<lparr>store_after = (if new_last \<noteq> last then state_set_last_id st new_last else st),
                        fetched = err_rows, mail = sent, raised = None\<rparr>))))"

text \<open>
  \<^verbatim>\<open>
  if __name__ == "__main__":                                   # monitor_errors.py
      last = get_last_id()
      rows = fetch_new_errors(last)
      if rows:
          print(fmt_errors(rows))
          set_last_id(rows[-1][0])
      issues = run_health_check()
      ...
      append_csv("ErrorLog", rows)
      append_csv("Health", issues)
      subject = ...
      body = ...
      if rows or issues:
          send_email(subject, body)
  \<close>
  The audit file and the console are not modelled.
\<close>

definition monitor_main :: "cycle_env \<Rightarrow> store \<Rightarrow> cycle_result" where
  "monitor_main env st =
     (let last = get_last_id st in
      case fetch_new_errors env last of
        Inl e \<Rightarrow> \<lparr>store_after = st, fetched = [], mail = NotCalled, raised = Some e\<rparr>
      | Inr rows \<Rightarrow>
          (let st1 = (if rows \<noteq> [] then set_last_id st (ErrorID (List.last rows)) else st) in
           case run_health_check env of
             Inl e \<Rightarrow> \<lparr>store_after = st1, fetched = rows, mail = NotCalled, raised = Some e\<rparr>
           | Inr issues \<Rightarrow>
               (case (if rows \<noteq> [] \<or> issues \<noteq> [] then send_email env [] [] else Inr NotCalled) of
                  Inl e \<Rightarrow> \<lparr>store_after = st1, fetched = rows, mail = SendRaised, raised = Some e\<rparr>
                | Inr sent \<Rightarrow> \<lparr>store_after = st1, fetched = rows, mail = sent, raised = None\<rparr>)))"

text \<open>
  A sequence of cycles, one per element of the list of worlds: each cycle starts from the
  state table the previous one left, whether or not it ended by an exception (as in
  \<open>main_loop\<close> of \<open>ai_agent.py\<close>, which catches it, and as between two runs of a one-shot
  script).
\<close>

fun run_cycles ::
  "(cycle_env \<Rightarrow> store \<Rightarrow> cycle_result) \<Rightarrow> cycle_env list \<Rightarrow> store \<Rightarrow> cycle_result list" where
  "run_cycles cycle [] st = []"
| "run_cycles cycle (env # envs) st =
     (let r = cycle env st in r # run_cycles cycle envs (store_after r))"

definition final_store :: "store \<Rightarrow> cycle_result list \<Rightarrow> store" where
  "final_store st rs = (if rs = [] then st else store_after (last rs))"

definition watermark :: "store \<Rightarrow> int" where
  "watermark st = get_state st ''last_error_id'' 0"

text \<open>The identifiers of the rows of the cycles whose mail the SMTP session delivered.\<close>

definition delivered_ids :: "cycle_result list \<Rightarrow> int set" where
  "delivered_ids rs = (\<Union>r \<in> set (filter (\<lambda>r. mail r = Delivered) rs). ErrorID ` set (fetched r))"

section \<open>The exceptions the driver raises\<close>

text \<open>
  \<open>cur.execute\<close> reports a server error as a \<open>pyodbc.Error\<close> with two arguments: the
  SQLSTATE, and a text made of the SQLSTATE in brackets, the message of the driver, the
  error number of the server in parentheses and the ODBC function in parentheses. The
  message of the driver starts with the bracketed names of the vendor, the driver and the
  server. This format belongs to the driver binding, not to the repository; the scan of
  \<open>_extract_errnum\<close> is written for it (it reads the second argument and blanks the
  brackets and the parentheses), and \<open>pick_driver\<close> of \<open>main.py\<close> names the drivers.
  \<open>driver_error sqlstate message native fn\<close> is the argument list of such an exception
  for the server error number \<open>native\<close>.
\<close>

definition driver_error :: "string \<Rightarrow> string \<Rightarrow> int \<Rightarrow> string \<Rightarrow> string list" where
  "driver_error sqlstate message native fn =
     [sqlstate,
      ''['' @ sqlstate @ ''] '' @ message @ '' ('' @ str_int native @ '') ('' @ fn @ '')'']"

section \<open>Sample worlds\<close>

text \<open>Concrete inputs on which the theorems below are evaluated.\<close>

definition deadlock_error :: "string list" where
  "deadlock_error =
     driver_error ''40001''
       (''[Microsoft][ODBC Driver 17 for SQL Server][SQL Server]Transaction (Process ID 55) '' @
        ''was deadlocked on lock resources with another process and has been chosen as the '' @
        ''deadlock victim. Rerun the transaction.'')
       1205 ''SQLExecDirectW''"

definition lock_timeout_error :: "string list" where
  "lock_timeout_error =
     driver_error ''HY000''
       ''[Microsoft][ODBC SQL Server Driver][SQL Server]Lock request time out period exceeded.''
       1222 ''SQLExecDirectW''"

definition funds_error :: "string list" where
  "funds_error =
     driver_error ''42000''
       ''[Microsoft][ODBC Driver 17 for SQL Server][SQL Server]Insufficient funds.''
       50003 ''SQLExecDirectW''"

definition dup_index_error :: "string list" where
  "dup_index_error =
     driver_error ''23000''
       (''[Microsoft][ODBC Driver 17 for SQL Server][SQL Server]Cannot insert duplicate key row '' @
        ''in object dbo.Transactions with unique index UX_Transactions_Ref.'')
       2601 ''SQLExecDirectW''"

definition dup_key_error :: "string list" where
  "dup_key_error =
     driver_error ''23000''
       (''[Microsoft][ODBC Driver 17 for SQL Server][SQL Server]Violation of UNIQUE KEY '' @
        ''constraint UQ_Transactions_Ref. Cannot insert duplicate key in object dbo.Transactions.'')
       2627 ''SQLExecDirectW''"

definition no_number_args :: "string list" where
  "no_number_args = [''HYT00'', ''Login timeout expired'']"

definition superscript_args :: "string list" where
  "superscript_args = [''HY000'', ''error '' @ [CHR 0xB2]]"

definition execute_fails :: "string list \<Rightarrow> int \<Rightarrow> db_world" where
  "execute_fails args k =
     \<lparr>connect_exn = None, execute_exn = Some (PyodbcError args), commit_exn = None,
      rollback_exn = None\<rparr>"

definition sample_row :: "int \<Rightarrow> py_value \<Rightarrow> err_row" where
  "sample_row i n =
     \<lparr>ErrorID = i, ProcName = PyStr ''usp_TransferFunds'', ErrorNumber = n,
      ErrorMessage = PyStr ''failed'', OccurredAt = PyStr ''2024-05-01 10:00:00''\<rparr>"

definition complete_smtp :: smtp_config where
  "complete_smtp =
     \<lparr>SMTP_HOST = ''smtp.example.com'', SMTP_PORT = 587, SMTP_USER = ''agent'',
      SMTP_PASS = ''secret'', SMTP_TO = [''ops@example.com'']\<rparr>"

definition incomplete_smtp :: smtp_config where
  "incomplete_smtp =
     \<lparr>SMTP_HOST = [], SMTP_PORT = 587, SMTP_USER = [], SMTP_PASS = [], SMTP_TO = []\<rparr>"

definition sample_env :: "err_row list \<Rightarrow> smtp_config \<Rightarrow> exn option \<Rightarrow> cycle_env" where
  "sample_env rows cfg x =
     \<lparr>error_log = rows, fetch_exn = None, health_sets = [Some []], health_exn = None,
      smtp = cfg, smtp_exn = x, utc_now = ''2024-05-01 10:05:00Z''\<rparr>"

definition first_rows :: "err_row list" where
  "first_rows = [sample_row 12 (PyInt 1205), sample_row 13 (PyInt 50003), sample_row 14 (PyInt 2627)]"

definition later_rows :: "err_row list" where
  "later_rows = first_rows @ [sample_row 15 (PyInt 547)]"

definition five_rows :: "err_row list" where
  "five_rows = map (\<lambda>i. sample_row i (PyInt 50003)) [101, 102, 103, 104, 105]"

definition smtp_down :: exn where
  "smtp_down = OtherError ''SMTPServerDisconnected''"

definition unconfigured_env :: cycle_env where
  "unconfigured_env = sample_env first_rows incomplete_smtp None"

definition two_cycles :: "cycle_env list" where
  "two_cycles = [sample_env first_rows complete_smtp (Some smtp_down),
                 sample_env later_rows complete_smtp None]"

definition later_cycles :: "cycle_env list" where
  "later_cycles = [sample_env later_rows complete_smtp None]"

definition store_at_14 :: store where
  "store_at_14 = set_state Map.empty ''last_error_id'' 14"

section \<open>The error number scan\<close>

lemma first_digit_token_none:
  "\<forall>tok \<in> set toks. \<not> isdigit tok \<Longrightarrow> first_digit_token toks = Inr None"
  by (induction toks) auto

text \<open>
  C8. \<open>_extract_errnum\<close> never raises. Whatever the body of its \<open>try\<close> does, the function
  returns: the value the body returns, and \<open>None\<close> when the body raises. When no token of
  the scanned text is a digit token, the body itself returns \<open>None\<close>, and so does the
  function.
\<close>

theorem extract_errnum_never_raises:
  "extract_errnum args = (case extract_errnum_try args of Inl e \<Rightarrow> None | Inr r \<Rightarrow> r) \<and>
   ((\<forall>tok \<in> set (tokens args). \<not> isdigit tok) \<longrightarrow>
      extract_errnum_try args = Inr None \<and> extract_errnum args = None)"
  by (simp add: extract_errnum_def extract_errnum_try_def first_digit_token_none)

lemma tokens_no_number_args:
  "tokens no_number_args = [''Login'', ''timeout'', ''expired'']"
  by code_simp

theorem extract_errnum_never_raises_witness:
  "tokens no_number_args = [''Login'', ''timeout'', ''expired''] \<and>
   list_all (\<lambda>tok. \<not> isdigit tok) (tokens no_number_args) \<and>
   extract_errnum_try no_number_args = Inr None \<and> extract_errnum no_number_args = None"
proof -
  have h: "\<forall>tok \<in> set (tokens no_number_args). \<not> isdigit tok"
    unfolding tokens_no_number_args by code_simp
  then have l: "list_all (\<lambda>tok. \<not> isdigit tok) (tokens no_number_args)"
    by (simp add: list_all_iff)
  from extract_errnum_never_raises [of no_number_args] h l tokens_no_number_args
  show ?thesis by blast
qed

text \<open>
  The handler is needed: a token made of a superscript digit passes \<open>isdigit\<close>, \<open>int\<close>
  raises \<open>ValueError\<close> on it, and the function returns \<open>None\<close>.
\<close>

lemma extract_errnum_superscript:
  "extract_errnum_try superscript_args = Inl ValueError \<and> extract_errnum superscript_args = None"
  by code_simp

section \<open>The classifier\<close>

lemma code_number_int: "code_number (PyInt n) = Inr (Some n)"
  by (simp add: code_number_def)

lemma code_number_none: "code_number PyNone = Inr None"
  by (simp add: code_number_def str_value_def isdigit_def is_digit_chr_def)

lemma code_number_text: "\<not> isdigit s \<Longrightarrow> code_number (PyStr s) = Inr None"
  by (simp add: code_number_def str_value_def)


text \<open>
  C4. On every integer code outside the table, on \<open>None\<close>, and on every text that is not
  a digit text, \<open>classify_and_plan\<close> returns (it does not raise) severity P2 and the plan
  that echoes the procedure name (\<open>unknown\<close> when the column is empty) and the message.
\<close>

theorem classify_and_plan_default:
  assumes "(ErrorNumber r = PyInt n \<and> n \<notin> {2601, 2627, 50003, 1205, 1222}) \<or>
           ErrorNumber r = PyNone \<or>
           (ErrorNumber r = PyStr s \<and> \<not> isdigit s)"
  shows "classify_and_plan r =
           Inr (''P2'',
                ''Investigate in SSMS. Procedure='' @
                str_value (if truthy (ProcName r) then ProcName r else PyStr ''unknown'') @
                '', Message='' @ str_value (ErrorMessage r))"
proof -
  from assms consider
      (number) "ErrorNumber r = PyInt n" "n \<notin> {2601, 2627, 50003, 1205, 1222}"
    | (null) "ErrorNumber r = PyNone"
    | (other) "ErrorNumber r = PyStr s" "\<not> isdigit s"
    by blast
  then show ?thesis
  proof cases
    case number
    then show ?thesis
      by (simp add: classify_and_plan_def code_number_int py_in_def default_plan_def)
  next
    case null
    then show ?thesis
      by (simp add: classify_and_plan_def code_number_none py_in_def default_plan_def)
  next
    case other
    then show ?thesis
      by (simp add: classify_and_plan_def code_number_text py_in_def default_plan_def)
  qed
qed

theorem classify_and_plan_default_witness:
  "classify_and_plan (sample_row 1 (PyInt 547)) =
     Inr (''P2'', ''Investigate in SSMS. Procedure=usp_TransferFunds, Message=failed'') \<and>
   classify_and_plan (sample_row 1 PyNone) =
     Inr (''P2'', ''Investigate in SSMS. Procedure=usp_TransferFunds, Message=failed'') \<and>
   classify_and_plan ((sample_row 1 (PyStr ''n/a''))\<lparr>ProcName := PyNone\<rparr>) =
     Inr (''P2'', ''Investigate in SSMS. Procedure=unknown, Message=failed'')"
proof -
  have d: "\<not> isdigit ''n/a''" by code_simp
  show ?thesis
    using classify_and_plan_default [of "sample_row 1 (PyInt 547)" 547 "[]"]
      classify_and_plan_default [of "sample_row 1 PyNone" 0 "[]"]
      classify_and_plan_default [of "(sample_row 1 (PyStr ''n/a''))\<lparr>ProcName := PyNone\<rparr>" 0 "''n/a''"] d
    by (simp add: sample_row_def str_value_def truthy_def)
qed

text \<open>
  A text that passes \<open>isdigit\<close> is converted with \<open>int\<close>: a decimal text is classified by
  its number, and on a superscript digit \<open>int\<close> raises, and so does the classifier.
\<close>

lemma classify_and_plan_digit_texts:
  "classify_and_plan (sample_row 1 (PyStr ''50003'')) = Inr (''P3'', insufficient_funds_plan) \<and>
   classify_and_plan (sample_row 1 (PyStr [CHR 0xB2])) = Inl ValueError"
  by code_simp

section \<open>The retry decorator and the operations\<close>

lemma retry_loop_returns:
  "fst (fn a) = Inr v \<Longrightarrow>
   retry_loop m b fn a = \<lparr>result = Inr v, calls = 1, sleeps = [], events = snd (fn a)\<rparr>"
  by (cases "fn a") (simp add: retry_loop.simps [of m b fn a])

lemma retry_loop_raises:
  "fst (fn a) = Inl (PyodbcError args) \<Longrightarrow>
   \<not> (py_in (extract_errnum args) TRANSIENT_ERRORS \<and> a < m) \<Longrightarrow>
   retry_loop m b fn a =
     \<lparr>result = Inl (PyodbcError args), calls = 1, sleeps = [], events = snd (fn a)\<rparr>"
  by (cases "fn a") (auto simp add: retry_loop.simps [of m b fn a])

lemma retry_loop_retries:
  "fst (fn a) = Inl (PyodbcError args) \<Longrightarrow>
   py_in (extract_errnum args) TRANSIENT_ERRORS \<Longrightarrow> a < m \<Longrightarrow>
   retry_loop m b fn a =
     (let r = retry_loop m b fn (a + 1)
      in r\<lparr>calls := Suc (calls r), sleeps := b * of_int a # sleeps r,
           events := snd (fn a) @ events r\<rparr>)"
  by (cases "fn a") (simp add: retry_loop.simps [of m b fn a] Let_def)

lemma retry_loop_all_transient:
  assumes "\<forall>k. a \<le> k \<and> k \<le> m \<longrightarrow>
             (\<exists>args. fst (fn k) = Inl (PyodbcError args) \<and>
                     py_in (extract_errnum args) TRANSIENT_ERRORS)"
    and "a \<le> m"
  shows "result (retry_loop m b fn a) = fst (fn m) \<and>
         calls (retry_loop m b fn a) = nat (m - a + 1) \<and>
         sleeps (retry_loop m b fn a) = map (\<lambda>k. b * of_int k) [a..m - 1]"
  using assms
proof (induction "nat (m - a)" arbitrary: a)
  case 0
  then have am: "a = m" by simp
  from 0 obtain args where f: "fst (fn m) = Inl (PyodbcError args)"
    using am by auto
  show ?case unfolding am
    using f by (simp add: retry_loop_raises [where fn = fn and a = m and m = m, OF f])
next
  case (Suc n)
  then have lt: "a < m" by simp
  from Suc.prems obtain args where f: "fst (fn a) = Inl (PyodbcError args)"
    and t: "py_in (extract_errnum args) TRANSIENT_ERRORS"
    by (meson order_refl)
  have n: "n = nat (m - (a + 1))" using Suc.hyps(2) by simp
  have ih: "result (retry_loop m b fn (a + 1)) = fst (fn m) \<and>
         calls (retry_loop m b fn (a + 1)) = nat (m - (a + 1) + 1) \<and>
         sleeps (retry_loop m b fn (a + 1)) = map (\<lambda>k. b * of_int k) [a + 1..m - 1]"
    using Suc.hyps(1) [OF n] Suc.prems lt by simp
  have up: "[a..m - 1] = a # [a + 1..m - 1]" using lt by (simp add: upto_rec1)
  show ?case
    using ih lt by (simp add: retry_loop_retries [where fn = fn and a = a and m = m, OF f t lt] Let_def up nat_add_distrib)
qed

text \<open>The scan on the text of a driver error.\<close>

lemma split_from_space:
  "isspace c \<Longrightarrow> split_from tok (xs @ c # ys) = split_from tok xs @ split_from [] ys"
  by (induction xs arbitrary: tok) auto

lemma split_from_word:
  "\<forall>c \<in> set w. \<not> isspace c \<Longrightarrow> split_from tok w = (if tok @ w = [] then [] else [tok @ w])"
  by (induction w arbitrary: tok) auto

lemma first_digit_token_append:
  "\<forall>tok \<in> set toks. \<not> isdigit tok \<Longrightarrow>
   first_digit_token (toks @ rest) = first_digit_token rest"
  by (induction toks) auto

lemma decimal_chr_plain:
  "is_decimal_chr c \<Longrightarrow>
   \<not> isspace c \<and> is_digit_chr c \<and> c \<notin> {CHR ''('', CHR '')'', CHR ''#'', CHR ''['', CHR '']''}"
  by (auto simp: is_decimal_chr_def isspace_def is_digit_chr_def Let_def)

lemma replace_brackets_decimal:
  "list_all is_decimal_chr s \<Longrightarrow> replace_brackets s = s"
  by (induction s) (auto simp: replace_brackets_def dest: decimal_chr_plain)

lemma replace_brackets_append:
  "replace_brackets (xs @ ys) = replace_brackets xs @ replace_brackets ys"
  by (simp add: replace_brackets_def)

lemma isspace_blank: "isspace CHR '' ''"
  by (simp add: isspace_def)

lemma replace_brackets_Cons:
  "replace_brackets (c # cs) =
     (if c \<in> {CHR ''('', CHR '')'', CHR ''#'', CHR ''['', CHR '']''} then CHR '' '' else c) #
     replace_brackets cs"
  by (simp add: replace_brackets_def)

lemma digit_chr_decimal: "d < 10 \<Longrightarrow> is_decimal_chr (digit_chr d) \<and> digit_val (digit_chr d) = int d"
  by (simp add: is_decimal_chr_def digit_chr_def digit_val_def Let_def)

lemma str_nat_decimal: "str_nat n \<noteq> [] \<and> list_all is_decimal_chr (str_nat n)"
proof (induction n rule: str_nat.induct)
  case (1 n)
  show ?case
  proof (cases "n < 10")
    case True
    then show ?thesis by (subst (1 2) str_nat.simps) (simp add: digit_chr_decimal del: str_nat.simps)
  next
    case False
    with 1 show ?thesis
      by (subst (1 2) str_nat.simps) (simp add: digit_chr_decimal del: str_nat.simps)
  qed
qed

lemma foldl_str_nat: "foldl (\<lambda>a c. 10 * a + digit_val c) 0 (str_nat n) = int n"
proof (induction n rule: str_nat.induct)
  case (1 n)
  show ?case
  proof (cases "n < 10")
    case True
    then show ?thesis by (subst str_nat.simps) (simp add: digit_chr_decimal del: str_nat.simps)
  next
    case False
    then have "foldl (\<lambda>a c. 10 * a + digit_val c) 0 (str_nat (n div 10)) = int (n div 10)"
      using 1 by simp
    with False show ?thesis
      by (subst str_nat.simps) (simp add: digit_chr_decimal zdiv_int zmod_int del: str_nat.simps)
  qed
qed

lemma int_of_str_str_int: "0 \<le> i \<Longrightarrow> int_of_str (str_int i) = Inr i"
  using str_nat_decimal [of "nat i"] foldl_str_nat [of "nat i"]
  by (simp add: int_of_str_def str_int_def del: str_nat.simps)

lemma decimal_text:
  assumes "s \<noteq> []" and "list_all is_decimal_chr s"
  shows "isdigit s" and "replace_brackets s = s" and "split_from [] s = [s]"
proof -
  from assms show "isdigit s"
    by (auto simp: isdigit_def list_all_iff dest: decimal_chr_plain)
  from assms(2) show "replace_brackets s = s" by (rule replace_brackets_decimal)
  from assms have "\<forall>c \<in> set s. \<not> isspace c"
    by (auto simp: list_all_iff dest: decimal_chr_plain)
  with assms(1) show "split_from [] s = [s]" by (simp add: split_from_word)
qed

text \<open>
  The scan returns the first token made of digits. In the text of the driver that is the
  SQLSTATE whenever the SQLSTATE is a number, whatever the error number of the server is.
\<close>

lemma extract_errnum_numeric_sqlstate:
  assumes "int_of_str sqlstate = Inr n"
  shows "extract_errnum (driver_error sqlstate message native fn) = Some n"
proof -
  define rest where "rest = message @ '' ('' @ str_int native @ '') ('' @ fn @ '')''"
  from assms have ne: "sqlstate \<noteq> []" and dec: "list_all is_decimal_chr sqlstate"
    by (auto simp: int_of_str_def split: if_splits)
  note d = decimal_text [OF ne dec]
  have "error_text (driver_error sqlstate message native fn) = ''['' @ sqlstate @ ''] '' @ rest"
    by (simp add: error_text_def driver_error_def rest_def)
  then have "tokens (driver_error sqlstate message native fn) =
      split_from [] (CHR '' '' # sqlstate @ CHR '' '' # CHR '' '' # replace_brackets rest)"
    by (simp add: tokens_def split_def replace_brackets_Cons replace_brackets_append d(2))
  also have "\<dots> = sqlstate # split_from [] (CHR '' '' # replace_brackets rest)"
    by (simp add: isspace_blank split_from_space d(3))
  finally show ?thesis
    using d(1) assms by (simp add: extract_errnum_def extract_errnum_try_def)
qed

text \<open>
  It returns the error number of the server when no token before it is made of digits:
  neither the SQLSTATE, nor a word of the driver's message.
\<close>

lemma extract_errnum_driver_error:
  assumes "0 \<le> native"
    and "\<forall>tok \<in> set (split (replace_brackets (''['' @ sqlstate @ ''] '' @ message))). \<not> isdigit tok"
  shows "extract_errnum (driver_error sqlstate message native fn) = Some native"
proof -
  define head where "head = ''['' @ sqlstate @ ''] '' @ message"
  define tail where "tail = replace_brackets ('' ('' @ fn @ '')'')"
  have ne: "str_int native \<noteq> []" and dec: "list_all is_decimal_chr (str_int native)"
    using assms(1) str_nat_decimal [of "nat native"] by (simp_all add: str_int_def del: str_nat.simps)
  note d = decimal_text [OF ne dec]
  have "error_text (driver_error sqlstate message native fn) =
          head @ CHR '' '' # CHR ''('' # str_int native @ CHR '')'' # '' ('' @ fn @ '')''"
    by (simp add: error_text_def driver_error_def head_def)
  then have "tokens (driver_error sqlstate message native fn) =
      split_from [] (replace_brackets head @ CHR '' '' # CHR '' '' # str_int native @ CHR '' '' # tail)"
    by (simp add: tokens_def split_def replace_brackets_Cons replace_brackets_append d(2) tail_def)
  also have "\<dots> = split (replace_brackets head) @ str_int native # split_from [] tail"
    by (simp add: isspace_blank split_from_space d(3) split_def)
  finally have "extract_errnum_try (driver_error sqlstate message native fn) =
      first_digit_token (str_int native # split_from [] tail)"
    using assms(2) by (simp add: extract_errnum_try_def first_digit_token_append head_def)
  then show ?thesis
    using d(1) int_of_str_str_int [OF assms(1)] by (simp add: extract_errnum_def)
qed

lemma numeric_sqlstates:
  "int_of_str ''42000'' = Inr 42000"
  "int_of_str ''23000'' = Inr 23000"
  "int_of_str ''40001'' = Inr 40001"
  by code_simp+

lemma lock_timeout_head:
  "list_all (\<lambda>tok. \<not> isdigit tok)
     (split (replace_brackets (''['' @ ''HY000'' @ ''] '' @
        ''[Microsoft][ODBC SQL Server Driver][SQL Server]Lock request time out period exceeded.'')))"
  by code_simp

lemma extract_errnum_samples:
  "extract_errnum deadlock_error = Some 40001"
  "extract_errnum lock_timeout_error = Some 1222"
  "extract_errnum funds_error = Some 42000"
  "extract_errnum dup_index_error = Some 23000"
  "extract_errnum dup_key_error = Some 23000"
proof -
  show "extract_errnum deadlock_error = Some 40001"
    unfolding deadlock_error_def
    by (rule extract_errnum_numeric_sqlstate) (rule numeric_sqlstates)
  show "extract_errnum funds_error = Some 42000"
    unfolding funds_error_def
    by (rule extract_errnum_numeric_sqlstate) (rule numeric_sqlstates)
  show "extract_errnum dup_index_error = Some 23000"
    unfolding dup_index_error_def
    by (rule extract_errnum_numeric_sqlstate) (rule numeric_sqlstates)
  show "extract_errnum dup_key_error = Some 23000"
    unfolding dup_key_error_def
    by (rule extract_errnum_numeric_sqlstate) (rule numeric_sqlstates)
  have "(0::int) \<le> 1222" by simp
  then show "extract_errnum lock_timeout_error = Some 1222"
    unfolding lock_timeout_error_def
    by (rule extract_errnum_driver_error) (rule lock_timeout_head [unfolded list_all_iff])
qed

lemma op_body_pyodbc_failure:
  assumes "connect_exn w = None" and "rollback_exn w = None"
    and "execute_exn w = Some (PyodbcError args) \<or>
         (execute_exn w = None \<and> commit_exn w = Some (PyodbcError args))"
  shows "op_body kind w =
           (if is_business_error args then Inr ReturnFalse else Inl (PyodbcError args),
            [Connect, Execute kind] @ (if execute_exn w = None then [Commit] else []) @ [Rollback])"
  using assms by (auto simp: op_body_def on_error_def)

lemma operation_with_retry:
  "operation kind world =
     with_retry default_max_attempts default_base_delay (\<lambda>k. op_body kind (world k))"
  by (cases kind) (simp_all add: operation_def deposit_def withdraw_def transfer_def)

lemma op_body_execute_fails:
  "op_body kind (execute_fails args k) =
     (if is_business_error args then Inr ReturnFalse else Inl (PyodbcError args),
      [Connect, Execute kind, Rollback])"
  by (simp add: op_body_pyodbc_failure execute_fails_def)

lemma with_retry_first_returns:
  "fst (fn 1) = Inr v \<Longrightarrow>
   with_retry m b fn = \<lparr>result = Inr v, calls = 1, sleeps = [], events = snd (fn 1)\<rparr>"
  by (simp add: with_retry_def retry_loop_returns)

lemma with_retry_first_raises:
  "fst (fn 1) = Inl (PyodbcError args) \<Longrightarrow> \<not> py_in (extract_errnum args) TRANSIENT_ERRORS \<Longrightarrow>
   with_retry m b fn =
     \<lparr>result = Inl (PyodbcError args), calls = 1, sleeps = [], events = snd (fn 1)\<rparr>"
  by (simp add: with_retry_def retry_loop_raises)

lemma operation_business_failure:
  assumes "is_business_error args"
    and "connect_exn (world 1) = None" and "rollback_exn (world 1) = None"
    and "execute_exn (world 1) = Some (PyodbcError args) \<or>
         (execute_exn (world 1) = None \<and> commit_exn (world 1) = Some (PyodbcError args))"
  shows "operation kind world =
           \<lparr>result = Inr ReturnFalse, calls = 1, sleeps = [],
            events = [Connect, Execute kind] @
                     (if execute_exn (world 1) = None then [Commit] else []) @ [Rollback]\<rparr>"
proof -
  have "op_body kind (world 1) =
          (Inr ReturnFalse,
           [Connect, Execute kind] @ (if execute_exn (world 1) = None then [Commit] else []) @ [Rollback])"
    using assms by (simp add: op_body_pyodbc_failure)
  then show ?thesis
    by (simp add: operation_with_retry
        with_retry_first_returns [where fn = "\<lambda>k. op_body kind (world k)" and v = ReturnFalse])
qed

lemma operation_other_failure:
  assumes "\<not> is_business_error args" and "\<not> py_in (extract_errnum args) TRANSIENT_ERRORS"
    and "connect_exn (world 1) = None" and "rollback_exn (world 1) = None"
    and "execute_exn (world 1) = Some (PyodbcError args) \<or>
         (execute_exn (world 1) = None \<and> commit_exn (world 1) = Some (PyodbcError args))"
  shows "operation kind world =
           \<lparr>result = Inl (PyodbcError args), calls = 1, sleeps = [],
            events = [Connect, Execute kind] @
                     (if execute_exn (world 1) = None then [Commit] else []) @ [Rollback]\<rparr>"
proof -
  have "op_body kind (world 1) =
          (Inl (PyodbcError args),
           [Connect, Execute kind] @ (if execute_exn (world 1) = None then [Commit] else []) @ [Rollback])"
    using assms by (simp add: op_body_pyodbc_failure)
  then show ?thesis
    using assms(2)
    by (simp add: operation_with_retry
        with_retry_first_raises [where fn = "\<lambda>k. op_body kind (world k)" and args = args])
qed

lemma with_retry_scanned_transient:
  assumes "c \<in> TRANSIENT_ERRORS" and "1 \<le> max_attempts"
    and "\<forall>k. \<exists>args. fst (fn k) = Inl (PyodbcError args) \<and> extract_errnum args = Some c"
  shows "calls (with_retry max_attempts base_delay fn) = nat max_attempts \<and>
         result (with_retry max_attempts base_delay fn) = fst (fn max_attempts) \<and>
         sleeps (with_retry max_attempts base_delay fn) =
           map (\<lambda>k. base_delay * of_int k) [1..max_attempts - 1] \<and>
         delay_before (with_retry max_attempts base_delay fn) 1 = 0 \<and>
         (\<forall>k. 1 \<le> k \<and> k < nat max_attempts \<longrightarrow>
            delay_before (with_retry max_attempts base_delay fn) (k + 1) = base_delay * of_nat k)"
proof -
  let ?r = "with_retry max_attempts base_delay fn"
  have all: "\<forall>k. 1 \<le> k \<and> k \<le> max_attempts \<longrightarrow>
      (\<exists>args. fst (fn k) = Inl (PyodbcError args) \<and> py_in (extract_errnum args) TRANSIENT_ERRORS)"
    using assms(1,3) by (metis py_in_def option.simps(5))
  from retry_loop_all_transient [OF all assms(2), of base_delay]
  have r: "result ?r = fst (fn max_attempts)" and c: "calls ?r = nat max_attempts"
    and s: "sleeps ?r = map (\<lambda>k. base_delay * of_int k) [1..max_attempts - 1]"
    by (simp_all add: with_retry_def)
  have d: "delay_before ?r (k + 1) = base_delay * of_nat k"
    if "1 \<le> k" "k < nat max_attempts" for k
  proof -
    have "int (k - 1) < max_attempts - 1" using that by linarith
    then have "[1..max_attempts - 1] ! (k - 1) = 1 + int (k - 1)"
      by (simp add: nth_upto)
    moreover have "k - 1 < length [1..max_attempts - 1]" using that by simp
    ultimately have "sleeps ?r ! (k - 1) = base_delay * of_int (1 + int (k - 1))"
      unfolding s by simp
    moreover have "1 + int (k - 1) = int k" using that by simp
    ultimately show ?thesis using that c by (simp add: delay_before_def)
  qed
  have d1: "delay_before ?r 1 = 0" by (simp add: delay_before_def)
  from r c s d1 d show ?thesis by blast
qed

text \<open>
  C2, as the code has it. Take a retry-eligible code and \<open>max_attempts\<close> of at least 1,
  and let every call fail with a driver error for that server error number in whose text
  no token before the number is made of digits (the SQLSTATE is not a number, and the
  driver's message has no number of its own), so that the scan recovers the number. The
  wrapper then calls the function exactly \<open>max_attempts\<close> times and raises the exception of
  the last call. It sleeps \<open>max_attempts - 1\<close> times: nothing before the first attempt,
  and \<open>base_delay * k\<close> after the failed attempt \<open>k\<close>, that is before attempt \<open>k + 1\<close>.
  The defaults are 3 attempts and a base delay of 4/5.
\<close>

theorem with_retry_transient_exhausted:
  assumes "c \<in> TRANSIENT_ERRORS" and "1 \<le> max_attempts"
    and "\<forall>k. \<exists>sqlstate message f.
           fst (fn k) = Inl (PyodbcError (driver_error sqlstate message c f)) \<and>
           list_all (\<lambda>tok. \<not> isdigit tok)
             (split (replace_brackets (''['' @ sqlstate @ ''] '' @ message)))"
  shows "calls (with_retry max_attempts base_delay fn) = nat max_attempts \<and>
         result (with_retry max_attempts base_delay fn) = fst (fn max_attempts) \<and>
         sleeps (with_retry max_attempts base_delay fn) =
           map (\<lambda>k. base_delay * of_int k) [1..max_attempts - 1] \<and>
         delay_before (with_retry max_attempts base_delay fn) 1 = 0 \<and>
         (\<forall>k. 1 \<le> k \<and> k < nat max_attempts \<longrightarrow>
            delay_before (with_retry max_attempts base_delay fn) (k + 1) = base_delay * of_nat k) \<and>
         default_max_attempts = 3 \<and> default_base_delay = 4 / 5"
proof -
  have pos: "0 \<le> c" using assms(1) by (auto simp: TRANSIENT_ERRORS_def)
  have scanned: "\<forall>k. \<exists>args. fst (fn k) = Inl (PyodbcError args) \<and> extract_errnum args = Some c"
  proof
    fix k
    from assms(3) obtain sqlstate message f where
      f: "fst (fn k) = Inl (PyodbcError (driver_error sqlstate message c f))" and
      n: "list_all (\<lambda>tok. \<not> isdigit tok)
            (split (replace_brackets (''['' @ sqlstate @ ''] '' @ message)))"
      by blast
    from n have "\<forall>tok \<in> set (split (replace_brackets (''['' @ sqlstate @ ''] '' @ message))).
        \<not> isdigit tok"
      by (simp add: list_all_iff)
    from extract_errnum_driver_error [OF pos this]
    have "extract_errnum (driver_error sqlstate message c f) = Some c" .
    with f show "\<exists>args. fst (fn k) = Inl (PyodbcError args) \<and> extract_errnum args = Some c"
      by blast
  qed
  have dflt: "default_max_attempts = 3 \<and> default_base_delay = 4 / 5"
    by (simp add: default_max_attempts_def default_base_delay_def)
  from with_retry_scanned_transient [OF assms(1,2) scanned, of base_delay] dflt
  show ?thesis by blast
qed

theorem with_retry_transient_exhausted_witness:
  "(1222::int) \<in> TRANSIENT_ERRORS \<and>
   extract_errnum lock_timeout_error = Some 1222 \<and>
   calls (transfer (execute_fails lock_timeout_error)) = 3 \<and>
   result (transfer (execute_fails lock_timeout_error)) = Inl (PyodbcError lock_timeout_error) \<and>
   sleeps (transfer (execute_fails lock_timeout_error)) = [4 / 5, 8 / 5] \<and>
   delay_before (transfer (execute_fails lock_timeout_error)) 3 = 8 / 5"
proof -
  let ?fn = "\<lambda>k. op_body Transfer (execute_fails lock_timeout_error k)"
  have m: "(1222::int) \<in> TRANSIENT_ERRORS" by (simp add: TRANSIENT_ERRORS_def)
  have three: "(1::int) \<le> 3" by simp
  have e: "extract_errnum lock_timeout_error = Some 1222" by (rule extract_errnum_samples)
  have nb: "\<not> is_business_error lock_timeout_error"
    by (simp add: is_business_error_def e py_in_def BUSINESS_ERRORS_def)
  have body: "fst (?fn k) = Inl (PyodbcError lock_timeout_error)" for k
    by (simp add: op_body_execute_fails nb)
  have f: "\<forall>k. \<exists>sqlstate message f.
       fst (?fn k) = Inl (PyodbcError (driver_error sqlstate message 1222 f)) \<and>
       list_all (\<lambda>tok. \<not> isdigit tok)
         (split (replace_brackets (''['' @ sqlstate @ ''] '' @ message)))"
  proof
    fix k
    have "fst (?fn k) = Inl (PyodbcError (driver_error ''HY000''
        ''[Microsoft][ODBC SQL Server Driver][SQL Server]Lock request time out period exceeded.''
        1222 ''SQLExecDirectW''))"
      using body [of k] by (simp only: lock_timeout_error_def)
    with lock_timeout_head
    show "\<exists>sqlstate message f.
       fst (?fn k) = Inl (PyodbcError (driver_error sqlstate message 1222 f)) \<and>
       list_all (\<lambda>tok. \<not> isdigit tok)
         (split (replace_brackets (''['' @ sqlstate @ ''] '' @ message)))"
      by blast
  qed
  have u: "[1..(2::int)] = [1, 2]" by (simp add: upto.simps)
  have t: "transfer (execute_fails lock_timeout_error) = with_retry 3 (4 / 5) ?fn"
    by (simp add: transfer_def default_max_attempts_def default_base_delay_def)
  note w = with_retry_transient_exhausted [OF m three f, of "4 / 5"]
  from w have "calls (with_retry 3 (4 / 5) ?fn) = nat 3" by blast
  then have c: "calls (with_retry 3 (4 / 5) ?fn) = 3" by simp
  from w have "result (with_retry 3 (4 / 5) ?fn) = fst (?fn 3)" by blast
  then have r: "result (with_retry 3 (4 / 5) ?fn) = Inl (PyodbcError lock_timeout_error)"
    by (simp only: body)
  from w have "sleeps (with_retry 3 (4 / 5) ?fn) = map (\<lambda>k. 4 / 5 * of_int k) [1..3 - 1]"
    by blast
  then have s: "sleeps (with_retry 3 (4 / 5) ?fn) = [4 / 5, 8 / 5]"
    by (simp add: u)
  from w have "\<forall>k. 1 \<le> k \<and> k < nat 3 \<longrightarrow>
      delay_before (with_retry 3 (4 / 5) ?fn) (k + 1) = 4 / 5 * of_nat k"
    by blast
  from this [rule_format, of 2] have d: "delay_before (with_retry 3 (4 / 5) ?fn) 3 = 8 / 5"
    by simp
  from m e c r s d show ?thesis unfolding t by blast
qed

text \<open>
  C2, as the claim words it, fails twice. A deadlock (1205) comes with the SQLSTATE 40001:
  the scan reads 40001, which is in no set, and the transfer raises after a single call,
  without a sleep. And where the scan does recover the number (a lock timeout reported
  under HY000 by the legacy driver), the transfer sleeps \<open>baseDelay * 1\<close> before its second
  attempt, not \<open>baseDelay * 2\<close>.
\<close>

theorem with_retry_claim_counterexample:
  "(1205::int) \<in> TRANSIENT_ERRORS \<and>
   extract_errnum deadlock_error = Some 40001 \<and>
   calls (transfer (execute_fails deadlock_error)) = 1 \<and>
   sleeps (transfer (execute_fails deadlock_error)) = [] \<and>
   result (transfer (execute_fails deadlock_error)) = Inl (PyodbcError deadlock_error) \<and>
   delay_before (transfer (execute_fails lock_timeout_error)) 2 = default_base_delay * 1 \<and>
   delay_before (transfer (execute_fails lock_timeout_error)) 2 \<noteq> default_base_delay * 2"
proof -
  have m: "(1205::int) \<in> TRANSIENT_ERRORS" by (simp add: TRANSIENT_ERRORS_def)
  have e: "extract_errnum deadlock_error = Some 40001" by (rule extract_errnum_samples)
  have "operation Transfer (execute_fails deadlock_error) =
      \<lparr>result = Inl (PyodbcError deadlock_error), calls = 1, sleeps = [],
       events = [Connect, Execute Transfer] @
                (if execute_exn (execute_fails deadlock_error 1) = None then [Commit] else []) @
                [Rollback]\<rparr>"
    by (rule operation_other_failure)
      (simp_all add: is_business_error_def e py_in_def BUSINESS_ERRORS_def TRANSIENT_ERRORS_def
        execute_fails_def)
  then have one: "calls (transfer (execute_fails deadlock_error)) = 1 \<and>
      sleeps (transfer (execute_fails deadlock_error)) = [] \<and>
      result (transfer (execute_fails deadlock_error)) = Inl (PyodbcError deadlock_error)"
    by (simp add: operation_def)
  have l: "extract_errnum lock_timeout_error = Some 1222" by (rule extract_errnum_samples)
  have nb: "\<not> is_business_error lock_timeout_error"
    by (simp add: is_business_error_def l py_in_def BUSINESS_ERRORS_def)
  have all: "\<forall>k. 1 \<le> k \<and> k \<le> 3 \<longrightarrow>
      (\<exists>args. fst (op_body Transfer (execute_fails lock_timeout_error k)) = Inl (PyodbcError args) \<and>
         py_in (extract_errnum args) TRANSIENT_ERRORS)"
    by (simp add: op_body_execute_fails nb l py_in_def TRANSIENT_ERRORS_def)
  have u: "[1..(2::int)] = [1, 2]" by (simp add: upto.simps)
  from retry_loop_all_transient [OF all, of "4 / 5"]
  have two: "delay_before (transfer (execute_fails lock_timeout_error)) 2 = default_base_delay * 1 \<and>
      delay_before (transfer (execute_fails lock_timeout_error)) 2 \<noteq> default_base_delay * 2"
    by (simp add: transfer_def with_retry_def default_max_attempts_def default_base_delay_def
        delay_before_def u)
  from m e one two show ?thesis by blast
qed

text \<open>
  C3 does not hold on the code for a business failure as the driver reports it. A server
  error raised by a procedure comes with a SQLSTATE that is a number (42000, and 23000 for
  a duplicate key): the scan reads that number instead of the error number, the number is
  in neither set, and the operation, after the rollback, raises the exception where the
  claim has it return \<open>False\<close>. This holds for every error number \<open>c\<close> of the business set,
  every message and every operation.
\<close>

theorem business_failure_reraised:
  assumes "c \<in> BUSINESS_ERRORS"
    and "int_of_str sqlstate = Inr n" and "n \<notin> BUSINESS_ERRORS" and "n \<notin> TRANSIENT_ERRORS"
    and "connect_exn (world 1) = None" and "rollback_exn (world 1) = None"
    and "execute_exn (world 1) = Some (PyodbcError (driver_error sqlstate message c fn))"
  shows "extract_errnum (driver_error sqlstate message c fn) = Some n \<and>
         \<not> is_business_error (driver_error sqlstate message c fn) \<and>
         operation kind world =
           \<lparr>result = Inl (PyodbcError (driver_error sqlstate message c fn)), calls = 1,
            sleeps = [], events = [Connect, Execute kind, Rollback]\<rparr>"
proof -
  let ?args = "driver_error sqlstate message c fn"
  have e: "extract_errnum ?args = Some n"
    using assms(2) by (rule extract_errnum_numeric_sqlstate)
  have nb: "\<not> is_business_error ?args"
    using assms(3) by (simp add: is_business_error_def e py_in_def)
  have nt: "\<not> py_in (extract_errnum ?args) TRANSIENT_ERRORS"
    using assms(4) by (simp add: e py_in_def)
  from operation_other_failure
    [where args = ?args and world = world and kind = kind, OF nb nt assms(5,6)] assms(7)
  have "operation kind world =
           \<lparr>result = Inl (PyodbcError ?args), calls = 1,
            sleeps = [], events = [Connect, Execute kind, Rollback]\<rparr>"
    by simp
  with e nb show ?thesis by blast
qed

theorem business_failure_reraised_witness:
  "(50003::int) \<in> BUSINESS_ERRORS \<and>
   extract_errnum funds_error = Some 42000 \<and>
   transfer (execute_fails funds_error) =
     \<lparr>result = Inl (PyodbcError funds_error), calls = 1, sleeps = [],
      events = [Connect, Execute Transfer, Rollback]\<rparr>"
proof -
  have m: "(50003::int) \<in> BUSINESS_ERRORS" by (simp add: BUSINESS_ERRORS_def)
  have o: "(42000::int) \<notin> BUSINESS_ERRORS" "(42000::int) \<notin> TRANSIENT_ERRORS"
    by (simp_all add: BUSINESS_ERRORS_def TRANSIENT_ERRORS_def)
  have w: "connect_exn (execute_fails funds_error 1) = None"
    "rollback_exn (execute_fails funds_error 1) = None"
    "execute_exn (execute_fails funds_error 1) =
       Some (PyodbcError (driver_error ''42000''
         ''[Microsoft][ODBC Driver 17 for SQL Server][SQL Server]Insufficient funds.''
         50003 ''SQLExecDirectW''))"
    by (simp_all add: execute_fails_def funds_error_def)
  note t = business_failure_reraised
    [where c = 50003 and sqlstate = "''42000''" and n = 42000
       and world = "execute_fails funds_error" and fn = "''SQLExecDirectW''" and kind = Transfer
       and message = "''[Microsoft][ODBC Driver 17 for SQL Server][SQL Server]Insufficient funds.''",
     OF m numeric_sqlstates(1) o w, folded funds_error_def]
  from t have "operation Transfer (execute_fails funds_error) =
     \<lparr>result = Inl (PyodbcError funds_error), calls = 1, sleeps = [],
      events = [Connect, Execute Transfer, Rollback]\<rparr>"
    by blast
  then have "transfer (execute_fails funds_error) =
     \<lparr>result = Inl (PyodbcError funds_error), calls = 1, sleeps = [],
      events = [Connect, Execute Transfer, Rollback]\<rparr>"
    by (simp add: operation_def)
  with m t show ?thesis by blast
qed

text \<open>
  C9. The classifier gives 2627 the outcome of 2601 (P2, duplicate reference); 2627 is in
  neither set of \<open>main.py\<close> and 2601 is in the business set. But the contrast the claim
  draws does not show on the code: a duplicate key comes with the SQLSTATE 23000, the scan
  reads 23000 for 2627 and for 2601 alike, and both failures are rolled back and raised
  after one call, without a sleep; the one with 2601 does not return \<open>False\<close>.
\<close>

theorem duplicate_key_failures_both_raised:
  assumes "c = 2627 \<or> c = 2601"
    and "int_of_str sqlstate = Inr n" and "n \<notin> BUSINESS_ERRORS" and "n \<notin> TRANSIENT_ERRORS"
    and "connect_exn (world 1) = None" and "rollback_exn (world 1) = None"
    and "execute_exn (world 1) = Some (PyodbcError (driver_error sqlstate message c fn))"
  shows "classify_and_plan (r\<lparr>ErrorNumber := PyInt 2627\<rparr>) =
           classify_and_plan (r\<lparr>ErrorNumber := PyInt 2601\<rparr>) \<and>
         classify_and_plan (r\<lparr>ErrorNumber := PyInt 2627\<rparr>) = Inr (''P2'', duplicate_plan) \<and>
         2627 \<notin> TRANSIENT_ERRORS \<and> 2627 \<notin> BUSINESS_ERRORS \<and> 2601 \<in> BUSINESS_ERRORS \<and>
         extract_errnum (driver_error sqlstate message c fn) = Some n \<and>
         operation kind world =
           \<lparr>result = Inl (PyodbcError (driver_error sqlstate message c fn)), calls = 1,
            sleeps = [], events = [Connect, Execute kind, Rollback]\<rparr>"
proof -
  let ?args = "driver_error sqlstate message c fn"
  have cl: "classify_and_plan (r\<lparr>ErrorNumber := PyInt 2627\<rparr>) = Inr (''P2'', duplicate_plan)"
    "classify_and_plan (r\<lparr>ErrorNumber := PyInt 2601\<rparr>) = Inr (''P2'', duplicate_plan)"
    by (simp_all add: classify_and_plan_def code_number_int py_in_def)
  have s: "2627 \<notin> TRANSIENT_ERRORS" "2627 \<notin> BUSINESS_ERRORS" "2601 \<in> BUSINESS_ERRORS"
    by (simp_all add: TRANSIENT_ERRORS_def BUSINESS_ERRORS_def)
  have e: "extract_errnum ?args = Some n"
    using assms(2) by (rule extract_errnum_numeric_sqlstate)
  have nb: "\<not> is_business_error ?args"
    using assms(3) by (simp add: is_business_error_def e py_in_def)
  have nt: "\<not> py_in (extract_errnum ?args) TRANSIENT_ERRORS"
    using assms(4) by (simp add: e py_in_def)
  from operation_other_failure
    [where args = ?args and world = world and kind = kind, OF nb nt assms(5,6)] assms(7)
  have "operation kind world =
           \<lparr>result = Inl (PyodbcError ?args), calls = 1,
            sleeps = [], events = [Connect, Execute kind, Rollback]\<rparr>"
    by simp
  with cl s e show ?thesis by simp
qed

theorem duplicate_key_failures_both_raised_witness:
  "extract_errnum dup_key_error = Some 23000 \<and>
   withdraw (execute_fails dup_key_error) =
     \<lparr>result = Inl (PyodbcError dup_key_error), calls = 1, sleeps = [],
      events = [Connect, Execute Withdraw, Rollback]\<rparr> \<and>
   extract_errnum dup_index_error = Some 23000 \<and>
   withdraw (execute_fails dup_index_error) =
     \<lparr>result = Inl (PyodbcError dup_index_error), calls = 1, sleeps = [],
      events = [Connect, Execute Withdraw, Rollback]\<rparr>"
proof -
  have o: "(23000::int) \<notin> BUSINESS_ERRORS" "(23000::int) \<notin> TRANSIENT_ERRORS"
    by (simp_all add: BUSINESS_ERRORS_def TRANSIENT_ERRORS_def)
  have ck: "(2627::int) = 2627 \<or> (2627::int) = 2601" by simp
  have ci: "(2601::int) = 2627 \<or> (2601::int) = 2601" by simp
  have wk: "connect_exn (execute_fails dup_key_error 1) = None"
    "rollback_exn (execute_fails dup_key_error 1) = None"
    "execute_exn (execute_fails dup_key_error 1) = Some (PyodbcError dup_key_error)"
    by (simp_all add: execute_fails_def)
  have wi: "connect_exn (execute_fails dup_index_error 1) = None"
    "rollback_exn (execute_fails dup_index_error 1) = None"
    "execute_exn (execute_fails dup_index_error 1) = Some (PyodbcError dup_index_error)"
    by (simp_all add: execute_fails_def)
  note k = duplicate_key_failures_both_raised
    [where world = "execute_fails dup_key_error" and c = 2627 and sqlstate = "''23000''"
       and n = 23000 and fn = "''SQLExecDirectW''" and kind = Withdraw and r = "sample_row 1 PyNone"
       and message = "''[Microsoft][ODBC Driver 17 for SQL Server][SQL Server]Violation of UNIQUE KEY '' @
        ''constraint UQ_Transactions_Ref. Cannot insert duplicate key in object dbo.Transactions.''",
     folded dup_key_error_def, OF ck numeric_sqlstates(2) o wk]
  note i = duplicate_key_failures_both_raised
    [where world = "execute_fails dup_index_error" and c = 2601 and sqlstate = "''23000''"
       and n = 23000 and fn = "''SQLExecDirectW''" and kind = Withdraw and r = "sample_row 1 PyNone"
       and message = "''[Microsoft][ODBC Driver 17 for SQL Server][SQL Server]Cannot insert duplicate key row '' @
        ''in object dbo.Transactions with unique index UX_Transactions_Ref.''",
     folded dup_index_error_def, OF ci numeric_sqlstates(2) o wi]
  from k have a: "extract_errnum dup_key_error = Some 23000 \<and>
     operation Withdraw (execute_fails dup_key_error) =
       \<lparr>result = Inl (PyodbcError dup_key_error), calls = 1, sleeps = [],
        events = [Connect, Execute Withdraw, Rollback]\<rparr>"
    by blast
  from i have b: "extract_errnum dup_index_error = Some 23000 \<and>
     operation Withdraw (execute_fails dup_index_error) =
       \<lparr>result = Inl (PyodbcError dup_index_error), calls = 1, sleeps = [],
        events = [Connect, Execute Withdraw, Rollback]\<rparr>"
    by blast
  from a b show ?thesis by (simp add: operation_def)
qed

section \<open>The poll cycle and the watermark\<close>

lemma sorted_le_last: "sorted xs \<Longrightarrow> x \<in> set xs \<Longrightarrow> x \<le> last xs"
  by (induction xs) auto

lemma last_sorted_Max:
  assumes "sorted (map ErrorID zs)" and "zs \<noteq> []"
  shows "ErrorID (last zs) = Max (ErrorID ` set zs)"
proof -
  let ?ys = "map ErrorID zs"
  have l: "last ?ys = ErrorID (last zs)" using assms(2) by (simp add: last_map)
  have m: "last ?ys \<in> ErrorID ` set zs"
    using assms(2) last_in_set [of zs] unfolding l by simp
  have "\<And>y. y \<in> ErrorID ` set zs \<Longrightarrow> y \<le> last ?ys"
  proof -
    fix y assume "y \<in> ErrorID ` set zs"
    then have "y \<in> set ?ys" by simp
    with assms(1) show "y \<le> last ?ys" by (rule sorted_le_last)
  qed
  with m have "Max (ErrorID ` set zs) = last ?ys"
    by (intro Max_eqI) auto
  with l show ?thesis by simp
qed

lemma fetch_new_errors_above:
  "fetch_new_errors env w = Inr rows \<Longrightarrow> x \<in> set rows \<Longrightarrow> w < ErrorID x"
  by (auto simp: fetch_new_errors_def split: option.splits)

lemma fetch_new_errors_last:
  assumes "fetch_new_errors env w = Inr rows" and "rows \<noteq> []"
  shows "ErrorID (last rows) = Max (ErrorID ` set rows)"
proof -
  from assms(1) have "rows = sort_key ErrorID (filter (\<lambda>r. ErrorID r > w) (error_log env))"
    by (auto simp: fetch_new_errors_def split: option.splits)
  then have "sorted (map ErrorID rows)" by (simp add: sorted_sort_key)
  then show ?thesis using assms(2) by (rule last_sorted_Max)
qed

lemma Max_above:
  "rows \<noteq> [] \<Longrightarrow> \<forall>x \<in> set rows. w < ErrorID x \<Longrightarrow> w < Max (ErrorID ` set rows)"
  by (cases rows) (auto simp: Max_gr_iff)

lemma html_report_some:
  assumes "html_report now rows issues = Inr h" and "rows \<noteq> [] \<or> issues \<noteq> []"
  shows "h \<noteq> None \<and> h \<noteq> Some []"
  using assms by (auto simp: html_report_def Let_def split: sum.splits if_splits)

lemma html_report_none_iff:
  "html_report now rows issues = Inr None \<longleftrightarrow> rows = [] \<and> issues = []"
  by (auto simp: html_report_def Let_def split: sum.splits)

lemma watermark_set_state [simp]:
  "watermark (set_state st ''last_error_id'' v) = v"
  "watermark (state_set_last_id st v) = v"
  "state_get_last_id st = watermark st"
  by (simp_all add: watermark_def set_state_def get_state_def state_set_last_id_def
      state_get_last_id_def)

text \<open>
  One cycle of \<open>agent.py\<close> and of \<open>ai_agent.py\<close>: every fetched row lies above the
  watermark the cycle started from; the watermark moves to the largest fetched identifier
  when \<open>send_email\<close> returned (after the session or after the warning) and rows were
  fetched, and stays where it was otherwise.
\<close>

lemma agent_main_step:
  "(\<forall>x \<in> set (fetched (agent_main env st)). watermark st < ErrorID x) \<and>
   (if mail (agent_main env st) \<in> {Delivered, Skipped} \<and> fetched (agent_main env st) \<noteq> []
    then watermark (store_after (agent_main env st)) = Max (ErrorID ` set (fetched (agent_main env st)))
    else watermark (store_after (agent_main env st)) = watermark st) \<and>
   (agent_smtp_configured (smtp env) \<longrightarrow> mail (agent_main env st) \<noteq> Skipped)"
proof (cases "fetch_new_errors env (watermark st)")
  case (Inl e)
  then show ?thesis by (simp add: agent_main_def watermark_def [symmetric])
next
  case rows: (Inr rows)
  note above = fetch_new_errors_above [OF rows]
  show ?thesis
  proof (cases "run_health_check env")
    case (Inl e)
    with rows above show ?thesis by (simp add: agent_main_def watermark_def [symmetric])
  next
    case issues: (Inr issues)
    show ?thesis
    proof (cases "html_report (utc_now env) rows issues")
      case (Inl e)
      with rows issues above show ?thesis
        by (simp add: agent_main_def watermark_def [symmetric])
    next
      case html: (Inr h)
      show ?thesis
      proof (cases "rows = []")
        case True
        with rows issues html show ?thesis
          by (auto simp: agent_main_def watermark_def [symmetric] agent_send_email_def
              split: option.splits)
      next
        case False
        from html_report_some [OF html] False have h: "h \<noteq> None \<and> h \<noteq> Some []" by simp
        from rows issues html h False above fetch_new_errors_last [OF rows False]
        show ?thesis
          by (auto simp: agent_main_def watermark_def [symmetric] agent_send_email_def
              split: option.splits)
      qed
    qed
  qed
qed

lemma run_once_step:
  "(\<forall>x \<in> set (fetched (run_once b env st)). watermark st < ErrorID x) \<and>
   (if mail (run_once b env st) \<in> {Delivered, Skipped} \<and> fetched (run_once b env st) \<noteq> []
    then watermark (store_after (run_once b env st)) = Max (ErrorID ` set (fetched (run_once b env st)))
    else watermark (store_after (run_once b env st)) = watermark st) \<and>
   (smtp_configured (smtp env) \<longrightarrow> mail (run_once b env st) \<noteq> Skipped)"
proof (cases "fetch_new_errors env (watermark st)")
  case (Inl e)
  then show ?thesis by (simp add: run_once_def)
next
  case rows: (Inr rows)
  note above = fetch_new_errors_above [OF rows]
  show ?thesis
  proof (cases "run_health_check env")
    case (Inl e)
    with rows above show ?thesis by (simp add: run_once_def)
  next
    case issues: (Inr issues)
    from rows issues above show ?thesis
      by (auto simp: run_once_def send_email_def Let_def split: option.splits)
  qed
qed

lemma agent_main_monotone: "watermark st \<le> watermark (store_after (agent_main env st))"
  using agent_main_step [of env st] Max_above [of "fetched (agent_main env st)" "watermark st"]
  by (auto split: if_splits)

lemma run_once_monotone: "watermark st \<le> watermark (store_after (run_once b env st))"
  using run_once_step [of b env st] Max_above [of "fetched (run_once b env st)" "watermark st"]
  by (auto split: if_splits)

lemma final_store_Cons:
  "final_store st (run_cycles cyc (env # envs) st) =
   final_store (store_after (cyc env st)) (run_cycles cyc envs (store_after (cyc env st)))"
  by (cases envs) (simp_all add: final_store_def Let_def)

lemma delivered_ids_Cons:
  "delivered_ids (r # rs) =
     (if mail r = Delivered then ErrorID ` set (fetched r) else {}) \<union> delivered_ids rs"
  by (simp add: delivered_ids_def)

lemma finite_delivered_ids: "finite (delivered_ids rs)"
  by (simp add: delivered_ids_def)

lemma Max_absorb:
  fixes w :: int
  assumes "finite I" and "I \<noteq> {}" and "finite D" and "w \<le> Max I"
  shows "Max (insert w (I \<union> D)) = Max (insert (Max I) D)"
proof (rule Max_eqI)
  let ?R = "Max (insert (Max I) D)"
  have fin: "finite (insert (Max I) D)" using assms(3) by simp
  have top: "Max I \<le> ?R" using fin by (simp add: Max_ge)
  show "finite (insert w (I \<union> D))" using assms by simp
  show "y \<le> ?R" if "y \<in> insert w (I \<union> D)" for y
  proof -
    from that consider "y = w" | "y \<in> I" | "y \<in> D" by blast
    then show ?thesis
    proof cases
      case 1
      with assms(4) top show ?thesis by simp
    next
      case 2
      then have "y \<le> Max I" using assms(1) by (simp add: Max_ge)
      with top show ?thesis by simp
    next
      case 3
      then show ?thesis using fin by (simp add: Max_ge)
    qed
  qed
  have "?R \<in> insert (Max I) D" using fin by (intro Max_in) simp_all
  moreover have "Max I \<in> I" using assms(1,2) by (rule Max_in)
  ultimately show "?R \<in> insert w (I \<union> D)" by auto
qed

lemma run_cycles_delivered_max:
  assumes step: "\<And>env st. env \<in> set envs \<Longrightarrow>
     (\<forall>x \<in> set (fetched (cyc env st)). watermark st < ErrorID x) \<and>
     (if mail (cyc env st) = Delivered \<and> fetched (cyc env st) \<noteq> []
      then watermark (store_after (cyc env st)) = Max (ErrorID ` set (fetched (cyc env st)))
      else watermark (store_after (cyc env st)) = watermark st)"
  shows "watermark (final_store st (run_cycles cyc envs st)) =
         Max (insert (watermark st) (delivered_ids (run_cycles cyc envs st)))"
  using step
proof (induction envs arbitrary: st)
  case Nil
  show ?case by (simp add: final_store_def delivered_ids_def)
next
  case (Cons env envs)
  let ?r = "cyc env st"
  let ?rs = "run_cycles cyc envs (store_after ?r)"
  have ih: "watermark (final_store (store_after ?r) ?rs) =
            Max (insert (watermark (store_after ?r)) (delivered_ids ?rs))"
  proof (rule Cons.IH)
    fix env' st'
    assume "env' \<in> set envs"
    then have "env' \<in> set (env # envs)" by simp
    then show "(\<forall>x \<in> set (fetched (cyc env' st')). watermark st' < ErrorID x) \<and>
     (if mail (cyc env' st') = Delivered \<and> fetched (cyc env' st') \<noteq> []
      then watermark (store_after (cyc env' st')) = Max (ErrorID ` set (fetched (cyc env' st')))
      else watermark (store_after (cyc env' st')) = watermark st')"
      by (rule Cons.prems)
  qed
  have st: "(\<forall>x \<in> set (fetched ?r). watermark st < ErrorID x) \<and>
     (if mail ?r = Delivered \<and> fetched ?r \<noteq> []
      then watermark (store_after ?r) = Max (ErrorID ` set (fetched ?r))
      else watermark (store_after ?r) = watermark st)"
    by (rule Cons.prems) simp
  show ?case
  proof (cases "mail ?r = Delivered \<and> fetched ?r \<noteq> []")
    case True
    let ?I = "ErrorID ` set (fetched ?r)"
    have w: "watermark (store_after ?r) = Max ?I" using st True by simp
    have le: "watermark st \<le> Max ?I"
      using Max_above [of "fetched ?r" "watermark st"] st True by simp
    have a: "Max (insert (watermark st) (?I \<union> delivered_ids ?rs)) =
          Max (insert (Max ?I) (delivered_ids ?rs))"
      using True le by (intro Max_absorb) (simp_all add: finite_delivered_ids)
    have d: "delivered_ids (run_cycles cyc (env # envs) st) = ?I \<union> delivered_ids ?rs"
      using True by (simp add: delivered_ids_Cons Let_def)
    have f: "watermark (final_store st (run_cycles cyc (env # envs) st)) =
             Max (insert (Max ?I) (delivered_ids ?rs))"
      by (simp only: final_store_Cons ih w)
    show ?thesis by (simp only: f d a)
  next
    case False
    then have w: "watermark (store_after ?r) = watermark st" using st by simp
    have d: "delivered_ids (run_cycles cyc (env # envs) st) = delivered_ids ?rs"
      using False by (auto simp: delivered_ids_Cons Let_def)
    have f: "watermark (final_store st (run_cycles cyc (env # envs) st)) =
             Max (insert (watermark st) (delivered_ids ?rs))"
      by (simp only: final_store_Cons ih w)
    show ?thesis by (simp only: f d)
  qed
qed

lemma run_cycles_above:
  assumes step: "\<And>env st. (\<forall>x \<in> set (fetched (cyc env st)). watermark st < ErrorID x) \<and>
                    watermark st \<le> watermark (store_after (cyc env st))"
    and "w \<le> watermark st" and "r \<in> set (run_cycles cyc envs st)" and "x \<in> set (fetched r)"
  shows "w < ErrorID x"
  using assms(2-4)
proof (induction envs arbitrary: st)
  case Nil
  then show ?case by simp
next
  case (Cons env envs)
  from Cons.prems(2) consider "r = cyc env st"
    | "r \<in> set (run_cycles cyc envs (store_after (cyc env st)))"
    by (auto simp: Let_def)
  then show ?case
  proof cases
    case 1
    with step [of env st] Cons.prems show ?thesis by auto
  next
    case 2
    have "w \<le> watermark (store_after (cyc env st))"
      using step [of env st] Cons.prems(1) by simp
    from Cons.IH [OF this 2 Cons.prems(3)] show ?thesis .
  qed
qed

lemma classify_and_plan_int_returns:
  "ErrorNumber e = PyInt n \<Longrightarrow> \<exists>p. classify_and_plan e = Inr p"
  by (simp add: classify_and_plan_def code_number_int Let_def)

lemma error_trs_int_codes:
  "\<forall>e \<in> set rows. \<exists>n. ErrorNumber e = PyInt n \<Longrightarrow> \<exists>trs. error_trs rows = Inr trs"
proof (induction rows)
  case Nil
  show ?case by simp
next
  case (Cons e rows)
  then obtain n where "ErrorNumber e = PyInt n" by auto
  from classify_and_plan_int_returns [OF this] obtain p where "classify_and_plan e = Inr p" ..
  then obtain t where "error_tr e = Inr t" by (cases p) (simp add: error_tr_def)
  moreover from Cons obtain trs where "error_trs rows = Inr trs" by auto
  ultimately show ?case by simp
qed

lemma html_report_int_codes:
  assumes "\<forall>e \<in> set rows. \<exists>n. ErrorNumber e = PyInt n"
  shows "\<exists>h. html_report now rows issues = Inr h"
proof -
  from error_trs_int_codes [OF assms] obtain trs where "error_trs rows = Inr trs" ..
  then show ?thesis by (simp add: html_report_def Let_def)
qed

text \<open>
  In \<open>agent.py\<close> and \<open>ai_agent.py\<close> a cycle that ends by an exception, and so a cycle
  whose \<open>send_email\<close> raises, leaves the state table as it found it.
\<close>

lemma raised_keeps_store:
  "raised (agent_main env st) \<noteq> None \<Longrightarrow> store_after (agent_main env st) = st"
  "raised (run_once b env st) \<noteq> None \<Longrightarrow> store_after (run_once b env st) = st"
  by (auto simp: agent_main_def run_once_def Let_def split: sum.splits if_splits)

lemma send_failure_keeps_store:
  "mail (agent_main env st) = SendRaised \<Longrightarrow> store_after (agent_main env st) = st"
  "mail (run_once b env st) = SendRaised \<Longrightarrow> store_after (run_once b env st) = st"
  by (auto simp: agent_main_def run_once_def Let_def agent_send_email_def send_email_def
      split: sum.splits if_splits option.splits)

text \<open>
  C1. \<open>monitor_errors.py\<close> stores the new watermark right after the fetch, before the
  health check and before \<open>send_email\<close>. When a cycle fetched rows and its SMTP session
  raises, the cycle ends by that exception with the watermark already at the largest
  fetched identifier, and the next cycle fetches nothing from the same log: the rows are
  not reported again. The instance below has the rows 101..105.
\<close>

theorem monitor_advances_before_delivery:
  assumes "fetch_new_errors env (get_last_id st) = Inr rows" and "rows \<noteq> []"
    and "run_health_check env = Inr issues"
    and "smtp_configured (smtp env)" and "smtp_exn env = Some e"
  shows "raised (monitor_main env st) = Some e \<and> mail (monitor_main env st) = SendRaised \<and>
         fetched (monitor_main env st) = rows \<and>
         get_last_id (store_after (monitor_main env st)) = Max (ErrorID ` set rows) \<and>
         (error_log env' = error_log env \<and> fetch_exn env' = None \<longrightarrow>
            fetched (monitor_main env' (store_after (monitor_main env st))) = [])"
proof -
  let ?st1 = "set_last_id st (ErrorID (last rows))"
  have send: "send_email env [] [] = Inl e"
    using assms(4,5) by (simp add: send_email_def)
  have r: "monitor_main env st =
      \<lparr>store_after = ?st1, fetched = rows, mail = SendRaised, raised = Some e\<rparr>"
    using assms(1-3) send by (simp add: monitor_main_def)
  have w: "get_last_id ?st1 = Max (ErrorID ` set rows)"
    using fetch_new_errors_last [OF assms(1,2)] by (simp add: get_last_id_def set_last_id_def)
  have rows: "set rows = {x \<in> set (error_log env). get_last_id st < ErrorID x}"
    using assms(1) by (auto simp: fetch_new_errors_def split: option.splits)
  have none: "filter (\<lambda>x. Max (ErrorID ` set rows) < ErrorID x) (error_log env) = []"
  proof (rule ccontr)
    assume "filter (\<lambda>x. Max (ErrorID ` set rows) < ErrorID x) (error_log env) \<noteq> []"
    then obtain x where x: "x \<in> set (error_log env)" "Max (ErrorID ` set rows) < ErrorID x"
      by (auto simp: filter_empty_conv)
    have "get_last_id st < Max (ErrorID ` set rows)"
      using Max_above [OF assms(2), of "get_last_id st"] fetch_new_errors_above [OF assms(1)]
      by blast
    with x have "x \<in> set rows" unfolding rows by simp
    then have "ErrorID x \<le> Max (ErrorID ` set rows)" by (simp add: Max_ge)
    with x(2) show False by simp
  qed
  have next_cycle: "fetched (monitor_main env' ?st1) = []"
    if "error_log env' = error_log env" "fetch_exn env' = None"
  proof -
    have "fetch_new_errors env' (get_last_id ?st1) = Inr []"
      using that none unfolding w by (simp add: fetch_new_errors_def)
    then show ?thesis
      by (simp add: monitor_main_def Let_def split: sum.splits)
  qed
  from r w next_cycle show ?thesis by simp
qed

lemma smtp_down_facts:
  "fetch_new_errors (sample_env five_rows complete_smtp (Some smtp_down)) (get_last_id Map.empty) =
     Inr five_rows"
  "run_health_check (sample_env five_rows complete_smtp (Some smtp_down)) = Inr []"
  "smtp_configured (smtp (sample_env five_rows complete_smtp (Some smtp_down)))"
  "smtp_exn (sample_env five_rows complete_smtp (Some smtp_down)) = Some smtp_down"
  "map ErrorID five_rows = [101, 102, 103, 104, 105]"
  "Max (ErrorID ` set five_rows) = 105"
  "error_log (sample_env five_rows complete_smtp None) =
     error_log (sample_env five_rows complete_smtp (Some smtp_down))"
  "fetch_exn (sample_env five_rows complete_smtp None) = None"
  by code_simp+

theorem monitor_advances_before_delivery_witness:
  "map ErrorID (fetched (monitor_main (sample_env five_rows complete_smtp (Some smtp_down)) Map.empty)) =
     [101, 102, 103, 104, 105] \<and>
   mail (monitor_main (sample_env five_rows complete_smtp (Some smtp_down)) Map.empty) = SendRaised \<and>
   raised (monitor_main (sample_env five_rows complete_smtp (Some smtp_down)) Map.empty) = Some smtp_down \<and>
   get_last_id (store_after (monitor_main (sample_env five_rows complete_smtp (Some smtp_down)) Map.empty)) = 105 \<and>
   fetched (monitor_main (sample_env five_rows complete_smtp None)
     (store_after (monitor_main (sample_env five_rows complete_smtp (Some smtp_down)) Map.empty))) = []"
proof -
  have ne: "five_rows \<noteq> []" by (simp add: five_rows_def)
  from monitor_advances_before_delivery
    [OF smtp_down_facts(1) ne smtp_down_facts(2,3,4), of "sample_env five_rows complete_smtp None"]
    smtp_down_facts(5-8)
  show ?thesis by simp
qed

text \<open>
  C6, as the code has it. A cycle of \<open>agent.py\<close> or \<open>ai_agent.py\<close> never lowers the
  watermark, and a fresh state table has the watermark 0. When the SMTP settings are
  complete in every cycle of a sequence, the watermark after the sequence is the largest
  identifier among the rows of the cycles whose mail was delivered, and the watermark the
  sequence started from when there is none.
\<close>

theorem watermark_monotone_and_delivered_max:
  "watermark st \<le> watermark (store_after (agent_main env st)) \<and>
   watermark st \<le> watermark (store_after (run_once b env st)) \<and>
   watermark Map.empty = 0 \<and>
   ((\<forall>env \<in> set envs. agent_smtp_configured (smtp env)) \<longrightarrow>
      watermark (final_store st (run_cycles agent_main envs st)) =
        Max (insert (watermark st) (delivered_ids (run_cycles agent_main envs st)))) \<and>
   ((\<forall>env \<in> set envs. smtp_configured (smtp env)) \<longrightarrow>
      watermark (final_store st (run_cycles (run_once b) envs st)) =
        Max (insert (watermark st) (delivered_ids (run_cycles (run_once b) envs st))))"
proof -
  have e: "watermark Map.empty = 0" by (simp add: watermark_def get_state_def)
  have a: "watermark (final_store st (run_cycles agent_main envs st)) =
        Max (insert (watermark st) (delivered_ids (run_cycles agent_main envs st)))"
    if "\<forall>env \<in> set envs. agent_smtp_configured (smtp env)"
  proof (rule run_cycles_delivered_max)
    fix env' st'
    assume "env' \<in> set envs"
    with that have "agent_smtp_configured (smtp env')" by simp
    with agent_main_step [of env' st']
    show "(\<forall>x \<in> set (fetched (agent_main env' st')). watermark st' < ErrorID x) \<and>
       (if mail (agent_main env' st') = Delivered \<and> fetched (agent_main env' st') \<noteq> []
        then watermark (store_after (agent_main env' st')) =
               Max (ErrorID ` set (fetched (agent_main env' st')))
        else watermark (store_after (agent_main env' st')) = watermark st')"
      by (auto split: if_splits)
  qed
  have r: "watermark (final_store st (run_cycles (run_once b) envs st)) =
        Max (insert (watermark st) (delivered_ids (run_cycles (run_once b) envs st)))"
    if "\<forall>env \<in> set envs. smtp_configured (smtp env)"
  proof (rule run_cycles_delivered_max)
    fix env' st'
    assume "env' \<in> set envs"
    with that have "smtp_configured (smtp env')" by simp
    with run_once_step [of b env' st']
    show "(\<forall>x \<in> set (fetched (run_once b env' st')). watermark st' < ErrorID x) \<and>
       (if mail (run_once b env' st') = Delivered \<and> fetched (run_once b env' st') \<noteq> []
        then watermark (store_after (run_once b env' st')) =
               Max (ErrorID ` set (fetched (run_once b env' st')))
        else watermark (store_after (run_once b env' st')) = watermark st')"
      by (auto split: if_splits)
  qed
  from agent_main_monotone run_once_monotone e a r show ?thesis by blast
qed

lemma two_cycles_run_once:
  "watermark (final_store Map.empty (run_cycles (run_once False) two_cycles Map.empty)) = 15 \<and>
   map mail (run_cycles (run_once False) two_cycles Map.empty) = [SendRaised, Delivered] \<and>
   map (map ErrorID \<circ> fetched) (run_cycles (run_once False) two_cycles Map.empty) =
     [[12, 13, 14], [12, 13, 14, 15]]"
  by code_simp

theorem watermark_monotone_and_delivered_max_witness:
  "list_all (\<lambda>env. agent_smtp_configured (smtp env) \<and> smtp_configured (smtp env)) two_cycles \<and>
   watermark (final_store Map.empty (run_cycles agent_main two_cycles Map.empty)) =
     Max (insert 0 (delivered_ids (run_cycles agent_main two_cycles Map.empty))) \<and>
   map mail (run_cycles (run_once False) two_cycles Map.empty) = [SendRaised, Delivered] \<and>
   watermark (final_store Map.empty (run_cycles (run_once False) two_cycles Map.empty)) = 15 \<and>
   Max (insert 0 (delivered_ids (run_cycles (run_once False) two_cycles Map.empty))) = 15"
proof -
  have c: "\<forall>env \<in> set two_cycles. agent_smtp_configured (smtp env)"
    "\<forall>env \<in> set two_cycles. smtp_configured (smtp env)"
    by (simp_all add: two_cycles_def sample_env_def complete_smtp_def
        agent_smtp_configured_def smtp_configured_def)
  then have l: "list_all (\<lambda>env. agent_smtp_configured (smtp env) \<and> smtp_configured (smtp env)) two_cycles"
    by (simp add: list_all_iff)
  note w = watermark_monotone_and_delivered_max
    [where st = Map.empty and envs = two_cycles and b = False and env = unconfigured_env]
  from w have z: "watermark Map.empty = 0" by blast
  from w c(1) have a: "watermark (final_store Map.empty (run_cycles agent_main two_cycles Map.empty)) =
     Max (insert (watermark Map.empty) (delivered_ids (run_cycles agent_main two_cycles Map.empty)))"
    by blast
  from w c(2) have "watermark (final_store Map.empty (run_cycles (run_once False) two_cycles Map.empty)) =
     Max (insert (watermark Map.empty) (delivered_ids (run_cycles (run_once False) two_cycles Map.empty)))"
    by blast
  with two_cycles_run_once
  have r: "Max (insert (watermark Map.empty) (delivered_ids (run_cycles (run_once False) two_cycles Map.empty))) = 15"
    by simp
  from l a r two_cycles_run_once show ?thesis unfolding z by blast
qed

text \<open>
  C6, as the claim words it, fails when the SMTP settings are incomplete: one cycle of
  \<open>ai_agent.py\<close> over the rows 12, 13, 14 skips the mail, delivers nothing, and leaves
  the watermark at 14.
\<close>

theorem unconfigured_watermark_counterexample:
  "watermark (final_store Map.empty (run_cycles (run_once False) [unconfigured_env] Map.empty)) = 14 \<and>
   map mail (run_cycles (run_once False) [unconfigured_env] Map.empty) = [Skipped] \<and>
   delivered_ids (run_cycles (run_once False) [unconfigured_env] Map.empty) = {}"
  by code_simp

lemma later_rows_are_new:
  assumes step: "\<And>env st. (\<forall>x \<in> set (fetched (cyc env st)). watermark st < ErrorID x) \<and>
                    watermark st \<le> watermark (store_after (cyc env st))"
    and "watermark st = Max (ErrorID ` set rows)"
    and "r \<in> set (run_cycles cyc later st)" and "x \<in> set (fetched r)"
  shows "ErrorID x \<notin> ErrorID ` set rows"
proof
  assume "ErrorID x \<in> ErrorID ` set rows"
  then have "ErrorID x \<le> Max (ErrorID ` set rows)" by (simp add: Max_ge)
  moreover have "Max (ErrorID ` set rows) < ErrorID x"
    using run_cycles_above [of cyc "Max (ErrorID ` set rows)" st r later x] step assms(2-4)
    by simp
  ultimately show False by simp
qed

text \<open>
  C10. With incomplete SMTP settings \<open>send_email\<close> returns without sending. A cycle of
  \<open>agent.py\<close> (whose report is built without an exception) or of \<open>ai_agent.py\<close> that
  fetched rows then ends normally with the mail skipped and the watermark at the largest
  fetched identifier, and no later cycle of the script, whatever the world, fetches a row
  with the identifier of one of these rows.
\<close>

theorem unconfigured_smtp_advances_watermark:
  assumes "fetch_new_errors env (watermark st) = Inr rows" and "rows \<noteq> []"
    and "run_health_check env = Inr issues"
  shows "(\<not> agent_smtp_configured (smtp env) \<and>
          (\<exists>h. html_report (utc_now env) rows issues = Inr h) \<longrightarrow>
            fetched (agent_main env st) = rows \<and> mail (agent_main env st) = Skipped \<and>
            raised (agent_main env st) = None \<and>
            watermark (store_after (agent_main env st)) = Max (ErrorID ` set rows) \<and>
            (\<forall>r \<in> set (run_cycles agent_main later (store_after (agent_main env st))).
               \<forall>x \<in> set (fetched r). ErrorID x \<notin> ErrorID ` set rows)) \<and>
         (\<not> smtp_configured (smtp env) \<longrightarrow>
            fetched (run_once b env st) = rows \<and> mail (run_once b env st) = Skipped \<and>
            raised (run_once b env st) = None \<and>
            watermark (store_after (run_once b env st)) = Max (ErrorID ` set rows) \<and>
            (\<forall>r \<in> set (run_cycles (run_once b) later (store_after (run_once b env st))).
               \<forall>x \<in> set (fetched r). ErrorID x \<notin> ErrorID ` set rows))"
proof (intro conjI impI)
  assume a: "\<not> agent_smtp_configured (smtp env) \<and>
             (\<exists>h. html_report (utc_now env) rows issues = Inr h)"
  then obtain h where h: "html_report (utc_now env) rows issues = Inr h" by blast
  from html_report_some [OF h] assms(2) have h': "h \<noteq> None \<and> h \<noteq> Some []" by simp
  from assms h h' a show f: "fetched (agent_main env st) = rows"
    by (simp add: agent_main_def watermark_def [symmetric] agent_send_email_def)
  from assms h h' a show m: "mail (agent_main env st) = Skipped"
    by (simp add: agent_main_def watermark_def [symmetric] agent_send_email_def)
  from assms h h' a show "raised (agent_main env st) = None"
    by (simp add: agent_main_def watermark_def [symmetric] agent_send_email_def)
  from agent_main_step [of env st] f m assms(2)
  show w: "watermark (store_after (agent_main env st)) = Max (ErrorID ` set rows)" by simp
  show "\<forall>r \<in> set (run_cycles agent_main later (store_after (agent_main env st))).
               \<forall>x \<in> set (fetched r). ErrorID x \<notin> ErrorID ` set rows"
    using later_rows_are_new [of agent_main, OF _ w] agent_main_step agent_main_monotone
    by blast
next
  assume a: "\<not> smtp_configured (smtp env)"
  from assms a show f: "fetched (run_once b env st) = rows"
    by (simp add: run_once_def send_email_def Let_def)
  from assms a show m: "mail (run_once b env st) = Skipped"
    by (simp add: run_once_def send_email_def Let_def)
  from assms a show "raised (run_once b env st) = None"
    by (simp add: run_once_def send_email_def Let_def)
  from run_once_step [of b env st] f m assms(2)
  show w: "watermark (store_after (run_once b env st)) = Max (ErrorID ` set rows)" by simp
  show "\<forall>r \<in> set (run_cycles (run_once b) later (store_after (run_once b env st))).
               \<forall>x \<in> set (fetched r). ErrorID x \<notin> ErrorID ` set rows"
    using later_rows_are_new [of "run_once b", OF _ w] run_once_step run_once_monotone
    by blast
qed

lemma unconfigured_env_facts:
  "fetch_new_errors unconfigured_env (watermark Map.empty) = Inr first_rows"
  "run_health_check unconfigured_env = Inr []"
  "\<not> agent_smtp_configured (smtp unconfigured_env)"
  "\<not> smtp_configured (smtp unconfigured_env)"
  "Max (ErrorID ` set first_rows) = 14"
  by code_simp+

theorem unconfigured_smtp_advances_watermark_witness:
  "mail (agent_main unconfigured_env Map.empty) = Skipped \<and>
   watermark (store_after (agent_main unconfigured_env Map.empty)) = 14 \<and>
   list_all (\<lambda>r. list_all (\<lambda>x. ErrorID x \<notin> ErrorID ` set first_rows) (fetched r))
     (run_cycles agent_main later_cycles (store_after (agent_main unconfigured_env Map.empty))) \<and>
   mail (run_once False unconfigured_env Map.empty) = Skipped \<and>
   watermark (store_after (run_once False unconfigured_env Map.empty)) = 14 \<and>
   list_all (\<lambda>r. list_all (\<lambda>x. ErrorID x \<notin> ErrorID ` set first_rows) (fetched r))
     (run_cycles (run_once False) later_cycles (store_after (run_once False unconfigured_env Map.empty)))"
proof -
  have ne: "first_rows \<noteq> []" by (simp add: first_rows_def)
  have "\<forall>e \<in> set first_rows. \<exists>n. ErrorNumber e = PyInt n"
    by (simp add: first_rows_def sample_row_def)
  then have h: "\<exists>h. html_report (utc_now unconfigured_env) first_rows [] = Inr h"
    by (rule html_report_int_codes)
  from unconfigured_smtp_advances_watermark
    [OF unconfigured_env_facts(1) ne unconfigured_env_facts(2), of later_cycles False]
    h unconfigured_env_facts(3,4)
  show ?thesis unfolding unconfigured_env_facts(5) list_all_iff by blast
qed

text \<open>
  C7. \<open>html_report\<close> returns \<open>None\<close> exactly when there is neither a new error nor a
  health finding. In a cycle where both lists are empty, \<open>agent.py\<close> (and \<open>ai_agent.py\<close>
  without its send-when-idle flag) does not call \<open>send_email\<close> and leaves the state
  table unchanged.
\<close>

theorem no_report_no_delivery:
  "(html_report now rows issues = Inr None \<longleftrightarrow> rows = [] \<and> issues = []) \<and>
   (fetch_new_errors env (watermark st) = Inr [] \<and> run_health_check env = Inr [] \<longrightarrow>
      html_report (utc_now env) [] [] = Inr None \<and>
      agent_main env st = \<lparr>store_after = st, fetched = [], mail = NotCalled, raised = None\<rparr> \<and>
      run_once False env st = \<lparr>store_after = st, fetched = [], mail = NotCalled, raised = None\<rparr>)"
proof (intro conjI impI)
  show "html_report now rows issues = Inr None \<longleftrightarrow> rows = [] \<and> issues = []"
    by (rule html_report_none_iff)
next
  assume a: "fetch_new_errors env (watermark st) = Inr [] \<and> run_health_check env = Inr []"
  show n: "html_report (utc_now env) [] [] = Inr None" by (simp add: html_report_def)
  from a n show "agent_main env st = \<lparr>store_after = st, fetched = [], mail = NotCalled, raised = None\<rparr>"
    by (simp add: agent_main_def watermark_def [symmetric])
  from a show "run_once False env st = \<lparr>store_after = st, fetched = [], mail = NotCalled, raised = None\<rparr>"
    by (simp add: run_once_def Let_def)
qed

lemma caught_up_facts:
  "fetch_new_errors (sample_env first_rows complete_smtp None) (watermark store_at_14) = Inr []"
  "run_health_check (sample_env first_rows complete_smtp None) = Inr []"
  by code_simp+

theorem no_report_no_delivery_witness:
  "fetch_new_errors (sample_env first_rows complete_smtp None) (watermark store_at_14) = Inr [] \<and>
   run_health_check (sample_env first_rows complete_smtp None) = Inr [] \<and>
   agent_main (sample_env first_rows complete_smtp None) store_at_14 =
     \<lparr>store_after = store_at_14, fetched = [], mail = NotCalled, raised = None\<rparr> \<and>
   run_once False (sample_env first_rows complete_smtp None) store_at_14 =
     \<lparr>store_after = store_at_14, fetched = [], mail = NotCalled, raised = None\<rparr>"
  using no_report_no_delivery [of "[]" "[]" "[]" "sample_env first_rows complete_smtp None" store_at_14]
    caught_up_facts
  by blast

end
